theory Spec2Isabelle
  imports Complex_Main
begin

section \<open>Archivematica: indexing into Elasticsearch (elasticSearchFunctions.py)\<close>

text \<open>
  A shallow embedding of \<^verbatim>\<open>src/archivematicaCommon/lib/elasticSearchFunctions.py\<close>.
  Python values are a datatype, dictionaries are association lists in iteration order,
  exceptions are the left summand of a sum type, and everything the module does to the
  outside (the Elasticsearch client, the logger, the print function, the clock, the
  file system) is written into an explicit world that every function takes and returns.
\<close>

subsection \<open>Python values and exceptions\<close>

text \<open>
  The exceptions the module raises or lets through. \<open>StoreError\<close> stands for any exception
  raised inside the Elasticsearch client (they are all instances of \<^verbatim>\<open>Exception\<close>, and, like
  every exception object that defines neither \<^verbatim>\<open>__nonzero__\<close> nor \<^verbatim>\<open>__len__\<close>, truthy).
\<close>

datatype error =
    IndexError | KeyError | ValueError | AttributeError | OSError | OverflowError
  | EmptySearchResultError | TooManyResultsError | StoreError string

text \<open>
  The trees handed to the normalizer are what \<^verbatim>\<open>xmltodict.parse\<close> builds: mappings, lists and
  scalars. A mapping is an association list with distinct keys, listed in the order in which
  \<^verbatim>\<open>for key in data\<close> visits them. \<open>type_name\<close> is \<^verbatim>\<open>type(v).__name__\<close> for the builtin
  classes.
\<close>

datatype val =
    NoneV
  | BoolV bool
  | IntV int
  | FloatV real
  | StrV string
  | ListV "val list"
  | DictV "(string \<times> val) list"

type_synonym pydict = "(string \<times> val) list"

fun type_name :: "val \<Rightarrow> string" where
  "type_name NoneV = ''NoneType''"
| "type_name (BoolV b) = ''bool''"
| "type_name (IntV i) = ''int''"
| "type_name (FloatV r) = ''float''"
| "type_name (StrV s) = ''str''"
| "type_name (ListV xs) = ''list''"
| "type_name (DictV d) = ''dict''"

text \<open>\<^verbatim>\<open>d[k] = v\<close>: an existing key keeps its place, a new key is added at the end.\<close>

fun dict_set :: "pydict \<Rightarrow> string \<Rightarrow> val \<Rightarrow> pydict" where
  "dict_set [] k v = [(k, v)]"
| "dict_set ((k', v') # d) k v = (if k' = k then (k', v) # d else (k', v') # dict_set d k v)"

subsection \<open>The schema normalizer\<close>

text \<open>
  \<^verbatim>\<open>_normalize_dict_values\<close> and \<^verbatim>\<open>_normalize_list_dict_elements\<close> (lines 765-788) rewrite
  the tree in place and return it; on a tree (no object reachable twice) the returned value
  is the one computed here. A mapping-valued key is wrapped in a one-element list, a
  list-valued key has its elements normalised, anything else is left alone.
\<close>

fun normalize_dict_values :: "pydict \<Rightarrow> pydict"
and normalize_list_dict_elements :: "val list \<Rightarrow> val list" where
  "normalize_dict_values [] = []"
| "normalize_dict_values ((key, v) # rest) =
     (key, (case v of
              DictV d \<Rightarrow> ListV [DictV (normalize_dict_values d)]
            | ListV xs \<Rightarrow> ListV (normalize_list_dict_elements xs)
            | _ \<Rightarrow> v)) # normalize_dict_values rest"
| "normalize_list_dict_elements [] = []"
| "normalize_list_dict_elements (x # xs) =
     (case x of
        ListV ys \<Rightarrow> ListV (normalize_list_dict_elements ys)
      | DictV d \<Rightarrow> DictV (normalize_dict_values d)
      | _ \<Rightarrow> x) # normalize_list_dict_elements xs"

text \<open>
  \<^verbatim>\<open>_rename_dict_keys_with_child_dicts\<close> (lines 733-753) builds a fresh mapping \<open>new\<close>, visiting
  the keys of \<open>data\<close> in order; \<open>rename_items\<close> is that loop, with the keys still to visit
  and \<open>new\<close> so far. For a list value the source reads \<^verbatim>\<open>data[key][0]\<close> before anything
  else, which raises \<^verbatim>\<open>IndexError\<close> on an empty list.
  \<^verbatim>\<open>_rename_list_elements_if_they_are_dicts\<close> (lines 756-762) replaces the elements of a list
  from left to right.
\<close>

fun rename_items :: "pydict \<Rightarrow> pydict \<Rightarrow> error + pydict"
and rename_list_elements_if_they_are_dicts :: "val list \<Rightarrow> error + val list" where
  "rename_items [] new = Inr new"
| "rename_items ((key, v) # rest) new =
     (case v of
        DictV d \<Rightarrow>
          (case rename_items d [] of
             Inl e \<Rightarrow> Inl e
           | Inr d' \<Rightarrow> rename_items rest (dict_set new (key @ ''_data'') (DictV d')))
      | ListV xs \<Rightarrow>
          (case xs of
             [] \<Rightarrow> Inl IndexError
           | x # _ \<Rightarrow>
               (case rename_list_elements_if_they_are_dicts xs of
                  Inl e \<Rightarrow> Inl e
                | Inr xs' \<Rightarrow>
                    rename_items rest
                      (dict_set new (key @ ''_'' @ type_name x @ ''_list'') (ListV xs'))))
      | _ \<Rightarrow> rename_items rest (dict_set new key v))"
| "rename_list_elements_if_they_are_dicts [] = Inr []"
| "rename_list_elements_if_they_are_dicts (x # xs) =
     (case (case x of
              ListV ys \<Rightarrow> map_sum id ListV (rename_list_elements_if_they_are_dicts ys)
            | DictV d \<Rightarrow> map_sum id DictV (rename_items d [])
            | _ \<Rightarrow> Inr x) of
        Inl e \<Rightarrow> Inl e
      | Inr x' \<Rightarrow> map_sum id ((#) x') (rename_list_elements_if_they_are_dicts xs))"

definition rename_dict_keys_with_child_dicts :: "pydict \<Rightarrow> error + pydict" where
  "rename_dict_keys_with_child_dicts data = rename_items data []"

text \<open>
  The composition every caller applies (lines 384, 480, 517):
  \<^verbatim>\<open>_rename_dict_keys_with_child_dicts(_normalize_dict_values(x))\<close>.
\<close>

definition normalize :: "pydict \<Rightarrow> error + pydict" where
  "normalize x = rename_dict_keys_with_child_dicts (normalize_dict_values x)"

text \<open>A scalar is a value that is neither a list nor a mapping.\<close>

fun is_scalar :: "val \<Rightarrow> bool" where
  "is_scalar (ListV xs) = False"
| "is_scalar (DictV d) = False"
| "is_scalar v = True"

subsection \<open>The world outside the module\<close>

text \<open>
  The module talks to an Elasticsearch client, a logger, a print function and the clock.
  Each such action is an \<open>event\<close>; a run of a function appends its events, in order, to
  the trace of the world. A message that the source builds with a format string is kept as
  the format and the values put into it.
\<close>

datatype level = ERROR | WARNING | INFO | DEBUG

text \<open>
  The keyword arguments of \<^verbatim>\<open>client.search\<close> for a term query \<^verbatim>\<open>{'query': {'term': {field: value}}}\<close>,
  and the part of its answer the module reads: \<^verbatim>\<open>hits.total\<close>, and of each hit its \<^verbatim>\<open>_id\<close> and
  its \<^verbatim>\<open>fields\<close> (absent when the document has none of the requested fields).
\<close>

record search_request =
  sr_index :: "string option"
  sr_doc_type :: "string option"
  sr_field :: string
  sr_value :: string
  sr_size :: "int option"
  sr_fields :: "string option"

record hit =
  hit_id :: string
  hit_fields :: "pydict option"

record search_results =
  total :: int
  hits :: "hit list"

datatype health_outcome = HealthRaises | HealthStatus string

datatype event =
    Log level string "val list"
  | Printfn string "val list"
  | PrintfnErr string
  | PrintfnExc error
  | StdPrint string
  | Sleep int
  | EsHealth
  | EsIndex string string val
  | EsSearch search_request
  | EsUpdate string string string val

text \<open>
  The client is a parameter of every function, as in the source. Its behaviour is given from
  outside: \<open>es_index c n\<close> is what the \<open>n\<close>-th call of \<^verbatim>\<open>client.index\<close> in this process does
  (\<open>None\<close>: it returns, \<open>Some e\<close>: it raises \<open>e\<close>), \<open>es_health c n\<close> likewise for
  \<^verbatim>\<open>client.cluster.health\<close>; searches and updates answer by their arguments.
\<close>

record client =
  es_index :: "nat \<Rightarrow> error option"
  es_health :: "nat \<Rightarrow> health_outcome"
  es_search :: "search_request \<Rightarrow> error + search_results"
  es_update :: "string \<Rightarrow> string \<Rightarrow> string \<Rightarrow> val \<Rightarrow> error option"

text \<open>
  The mutable state of the process: the trace, the number of index and health calls made so
  far, and the list object that is the default value of the parameter \<^verbatim>\<open>filepaths\<close> of
  \<^verbatim>\<open>_list_files_in_dir\<close> (line 820), created once when the module is loaded.
\<close>

record world =
  events :: "event list"
  index_calls :: nat
  health_calls :: nat
  default_filepaths :: "string list"

definition emit :: "event list \<Rightarrow> world \<Rightarrow> world" where
  "emit es w = w\<lparr>events := events w @ es\<rparr>"

definition DOC_TYPE :: string where
  "DOC_TYPE = ''_doc''"

definition MAX_QUERY_SIZE :: int where
  "MAX_QUERY_SIZE = 50000"

subsection \<open>The resilient writer\<close>

text \<open>
  \<^verbatim>\<open>time.sleep(seconds)\<close>: a negative length is refused with an exception (\<^verbatim>\<open>ValueError\<close> on
  Python 3, \<^verbatim>\<open>IOError\<close> on Python 2; the model names it \<open>ValueError\<close>), and so is a length that
  does not fit the interpreter's clock (\<^verbatim>\<open>OverflowError\<close>; CPython 3 counts 64-bit nanoseconds,
  so \<open>SLEEP_MAX\<close> is the last whole number of seconds below \<open>2 ^ 63\<close> nanoseconds). Any
  other length is slept.
\<close>

definition SLEEP_MAX :: int where
  "SLEEP_MAX = (2 ^ 63 - 1) div 10 ^ 9"

definition time_sleep :: "int \<Rightarrow> world \<Rightarrow> error option \<times> world" where
  "time_sleep seconds w =
     (if seconds < 0 then (Some ValueError, w)
      else if SLEEP_MAX < seconds then (Some OverflowError, w)
      else (None, emit [Sleep seconds] w))"

text \<open>
  \<^verbatim>\<open>_wait_for_cluster_yellow_status\<close> (lines 169-187): at most \<^verbatim>\<open>max_tries\<close> health checks, until
  one reports yellow or green. A health check that raises is printed and counts as unhealthy
  (the \<^verbatim>\<open>try\<close> covers the health check only; the sleep that follows an unhealthy answer is
  outside it).
\<close>

definition healthy :: "string option \<Rightarrow> bool" where
  "healthy status = (status = Some ''yellow'' \<or> status = Some ''green'')"

fun wait_loop ::
  "client \<Rightarrow> int \<Rightarrow> nat \<Rightarrow> string option \<Rightarrow> world \<Rightarrow> (error + unit) \<times> world" where
  "wait_loop c wait_between_tries 0 status w = (Inr (), w)"
| "wait_loop c wait_between_tries (Suc n) status w =
     (if healthy status then (Inr (), w)
      else
        (let w1 = w\<lparr>events := events w @ [EsHealth], health_calls := Suc (health_calls w)\<rparr>;
             (status', w2) =
               (case es_health c (health_calls w) of
                  HealthStatus s \<Rightarrow> (Some s, w1)
                | HealthRaises \<Rightarrow> (None, emit [StdPrint ''ERROR: failed health check.''] w1))
         in if healthy status' then wait_loop c wait_between_tries n status' w2
            else
              (case time_sleep wait_between_tries
                      (emit [StdPrint ''Cluster not in yellow or green state... waiting to retry.'']
                         w2) of
                 (Some e, w3) \<Rightarrow> (Inl e, w3)
               | (None, w3) \<Rightarrow> wait_loop c wait_between_tries n status' w3)))"

definition wait_for_cluster_yellow_status ::
  "client \<Rightarrow> int \<Rightarrow> int \<Rightarrow> world \<Rightarrow> (error + unit) \<times> world" where
  "wait_for_cluster_yellow_status c wait_between_tries max_tries w =
     wait_loop c wait_between_tries (nat max_tries) None w"

text \<open>
  \<^verbatim>\<open>_try_to_index\<close> (lines 684-701). \<open>try_loop\<close> is the \<^verbatim>\<open>for\<close> loop over
  \<^verbatim>\<open>xrange(0, max_tries)\<close> with the iterations still to run and the last exception caught.
  The handler prints and then sleeps; an exception of the sleep leaves the function. After
  the loop a caught exception is raised again (\<^verbatim>\<open>if exception\<close>: every value of \<open>error\<close> is a
  truthy exception object).
\<close>

definition client_index :: "client \<Rightarrow> val \<Rightarrow> string \<Rightarrow> world \<Rightarrow> error option \<times> world" where
  "client_index c data index w =
     (es_index c (index_calls w),
      w\<lparr>events := events w @ [EsIndex index DOC_TYPE data], index_calls := Suc (index_calls w)\<rparr>)"

fun try_loop ::
  "client \<Rightarrow> val \<Rightarrow> string \<Rightarrow> int \<Rightarrow> nat \<Rightarrow> error option \<Rightarrow> world \<Rightarrow> (error + unit) \<times> world" where
  "try_loop c data index wait_between_tries 0 exception w =
     (case exception of Some e \<Rightarrow> (Inl e, w) | None \<Rightarrow> (Inr (), w))"
| "try_loop c data index wait_between_tries (Suc n) exception w =
     (case client_index c data index w of
        (None, w1) \<Rightarrow> (Inr (), w1)
      | (Some e, w1) \<Rightarrow>
          (case time_sleep wait_between_tries
                  (emit [Printfn ''ERROR: error trying to index.'' [], PrintfnExc e] w1) of
             (Some e', w2) \<Rightarrow> (Inl e', w2)
           | (None, w2) \<Rightarrow> try_loop c data index wait_between_tries n (Some e) w2))"

definition try_to_index ::
  "client \<Rightarrow> val \<Rightarrow> string \<Rightarrow> int \<Rightarrow> int \<Rightarrow> world \<Rightarrow> (error + unit) \<times> world" where
  "try_to_index c data index wait_between_tries max_tries w =
     (if max_tries < 1 then (Inl ValueError, w)
      else try_loop c data index wait_between_tries (nat max_tries) None w)"

text \<open>
  The two statements that precede every write of a document (lines 413-414, 529-530,
  586-587, 674-675): \<^verbatim>\<open>_wait_for_cluster_yellow_status(client)\<close> and then
  \<^verbatim>\<open>_try_to_index(client, data, index, printfn=printfn)\<close>, both with their default delay of 10
  and their default of 10 tries.
\<close>

definition wait_and_index :: "client \<Rightarrow> val \<Rightarrow> string \<Rightarrow> world \<Rightarrow> (error + unit) \<times> world" where
  "wait_and_index c data index w =
     (case wait_for_cluster_yellow_status c 10 10 w of
        (Inl e, w1) \<Rightarrow> (Inl e, w1)
      | (Inr u, w1) \<Rightarrow> try_to_index c data index 10 10 w1)"

text \<open>
  A client whose first \<open>k\<close> index calls raise and whose store is empty, and a fresh process.
\<close>

definition flaky_client :: "nat \<Rightarrow> client" where
  "flaky_client k =
     \<lparr>es_index = (\<lambda>n. if n < k then Some (StoreError ''unavailable'') else None),
      es_health = (\<lambda>n. HealthStatus ''green''),
      es_search = (\<lambda>r. Inr \<lparr>total = 0, hits = []\<rparr>),
      es_update = (\<lambda>index doc_type ident body. None)\<rparr>"

definition initial_world :: world where
  "initial_world = \<lparr>events = [], index_calls = 0, health_calls = 0, default_filepaths = []\<rparr>"

subsection \<open>Queries and updates\<close>

text \<open>
  \<^verbatim>\<open>','.join(doc_type)\<close> and \<^verbatim>\<open>value.replace('/', '\\/')\<close> (a backslash before every slash).
\<close>

definition join_comma :: "string list \<Rightarrow> string" where
  "join_comma xs = (case xs of [] \<Rightarrow> [] | y # ys \<Rightarrow> y @ concat (map (\<lambda>z. '','' @ z) ys))"

definition escape_slashes :: "string \<Rightarrow> string" where
  "escape_slashes value = concat (map (\<lambda>ch. if ch = CHR ''/'' then [CHR 0x5C, CHR ''/''] else [ch]) value)"

definition client_search ::
  "client \<Rightarrow> search_request \<Rightarrow> world \<Rightarrow> (error + search_results) \<times> world" where
  "client_search c req w = (es_search c req, emit [EsSearch req] w)"

definition client_update ::
  "client \<Rightarrow> val \<Rightarrow> string \<Rightarrow> string \<Rightarrow> string \<Rightarrow> world \<Rightarrow> error option \<times> world" where
  "client_update c body index doc_type ident w =
     (es_update c index doc_type ident body, emit [EsUpdate index doc_type ident body] w)"

text \<open>
  \<^verbatim>\<open>search_all_results\<close> (lines 839-865), for the term queries its callers pass, and the two
  lookups built on it (lines 884-913). \<^verbatim>\<open>_document_ids_from_field_query\<close> takes an \<^verbatim>\<open>index\<close>
  and does not pass it on, so the search runs with \<^verbatim>\<open>index=None\<close>.
\<close>

definition search_all_results ::
  "client \<Rightarrow> string \<Rightarrow> string \<Rightarrow> string option \<Rightarrow> string option \<Rightarrow> world
     \<Rightarrow> (error + search_results) \<times> world" where
  "search_all_results c field value index doc_type w =
     (case client_search c
             \<lparr>sr_index = index, sr_doc_type = doc_type, sr_field = field, sr_value = value,
              sr_size = Some MAX_QUERY_SIZE, sr_fields = None\<rparr> w of
        (Inl e, w1) \<Rightarrow> (Inl e, w1)
      | (Inr results, w1) \<Rightarrow>
          (Inr results,
           if total results > MAX_QUERY_SIZE
           then emit [Log WARNING
                        ''Number of items in backlog (%s) exceeds maximum amount fetched (%s)''
                        [IntV (total results), IntV MAX_QUERY_SIZE]] w1
           else w1))"

definition document_ids_from_field_query ::
  "client \<Rightarrow> string \<Rightarrow> string list \<Rightarrow> string \<Rightarrow> string \<Rightarrow> world
     \<Rightarrow> (error + string list) \<times> world" where
  "document_ids_from_field_query c index doc_types field value w =
     (let searchvalue = escape_slashes value in
      case search_all_results c field searchvalue None (Some (join_comma doc_types)) w of
        (Inl e, w1) \<Rightarrow> (Inl e, w1)
      | (Inr documents, w1) \<Rightarrow>
          (Inr (if length (hits documents) > 0 then map hit_id (hits documents) else []), w1))"

definition document_id_from_field_query ::
  "client \<Rightarrow> string \<Rightarrow> string list \<Rightarrow> string \<Rightarrow> string \<Rightarrow> world
     \<Rightarrow> (error + string option) \<times> world" where
  "document_id_from_field_query c index doc_types field value w =
     (case document_ids_from_field_query c index doc_types field value w of
        (Inl e, w1) \<Rightarrow> (Inl e, w1)
      | (Inr ids, w1) \<Rightarrow> (Inr (if length ids = 1 then Some (hd ids) else None), w1))"

text \<open>\<^verbatim>\<open>get_file_tags\<close> (lines 916-949) and \<^verbatim>\<open>set_file_tags\<close> (lines 952-980).\<close>

definition get_file_tags :: "client \<Rightarrow> string \<Rightarrow> world \<Rightarrow> (error + val) \<times> world" where
  "get_file_tags c uuid w =
     (case client_search c
             \<lparr>sr_index = Some ''transfers'', sr_doc_type = Some ''transferfile'',
              sr_field = ''fileuuid'', sr_value = uuid, sr_size = None,
              sr_fields = Some ''tags''\<rparr> w of
        (Inl e, w1) \<Rightarrow> (Inl e, w1)
      | (Inr results, w1) \<Rightarrow>
          (let count = total results in
           if count = 0 then (Inl EmptySearchResultError, w1)
           else if count > 1 then (Inl TooManyResultsError, w1)
           else
             (case hits results of
                [] \<Rightarrow> (Inl IndexError, w1)
              | result # _ \<Rightarrow>
                  (case hit_fields result of
                     None \<Rightarrow> (Inr (ListV []), w1)
                   | Some result_fields \<Rightarrow>
                       (case map_of result_fields ''tags'' of
                          None \<Rightarrow> (Inl KeyError, w1)
                        | Some tags \<Rightarrow> (Inr tags, w1))))))"

definition set_file_tags :: "client \<Rightarrow> string \<Rightarrow> val \<Rightarrow> world \<Rightarrow> (error + bool) \<times> world" where
  "set_file_tags c uuid tags w =
     (case document_ids_from_field_query c ''transfers'' [''transferfile''] ''fileuuid'' uuid w of
        (Inl e, w1) \<Rightarrow> (Inl e, w1)
      | (Inr document_ids, w1) \<Rightarrow>
          (let count = length document_ids in
           if count = 0 then (Inl EmptySearchResultError, w1)
           else if count > 1 then (Inl TooManyResultsError, w1)
           else
             (case client_update c (DictV [(''doc'', DictV [(''tags'', tags)])])
                     ''transfers'' ''transferfile'' (hd document_ids) w1 of
                (Some e, w2) \<Rightarrow> (Inl e, w2)
              | (None, w2) \<Rightarrow> (Inr True, w2))))"

text \<open>\<^verbatim>\<open>_update_field\<close> (lines 1094-1110) and its three callers (lines 1113-1122).\<close>

definition update_field ::
  "client \<Rightarrow> string \<Rightarrow> string \<Rightarrow> string \<Rightarrow> string \<Rightarrow> val \<Rightarrow> world \<Rightarrow> (error + unit) \<times> world" where
  "update_field c uuid index doc_type field status w =
     (case document_id_from_field_query c index [doc_type] ''uuid'' uuid w of
        (Inl e, w1) \<Rightarrow> (Inl e, w1)
      | (Inr None, w1) \<Rightarrow>
          (Inr (), emit [Log ERROR ''Unable to find document with UUID {} in index {}''
                           [StrV uuid, StrV index]] w1)
      | (Inr (Some document_id), w1) \<Rightarrow>
          (case client_update c (DictV [(''doc'', DictV [(field, status)])])
                  index doc_type document_id w1 of
             (Some e, w2) \<Rightarrow> (Inl e, w2)
           | (None, w2) \<Rightarrow> (Inr (), w2)))"

definition mark_aip_deletion_requested :: "client \<Rightarrow> string \<Rightarrow> world \<Rightarrow> (error + unit) \<times> world" where
  "mark_aip_deletion_requested c uuid w =
     update_field c uuid ''aips'' ''aip'' ''status'' (StrV ''DEL_REQ'') w"

definition mark_aip_stored :: "client \<Rightarrow> string \<Rightarrow> world \<Rightarrow> (error + unit) \<times> world" where
  "mark_aip_stored c uuid w = update_field c uuid ''aips'' ''aip'' ''status'' (StrV ''UPLOADED'') w"

definition mark_backlog_deletion_requested ::
  "client \<Rightarrow> string \<Rightarrow> world \<Rightarrow> (error + unit) \<times> world" where
  "mark_backlog_deletion_requested c uuid w =
     update_field c uuid ''transfers'' ''transfer'' ''pending_deletion'' (BoolV True) w"

text \<open>The update calls in a trace, and a client whose every search finds the given hits.\<close>

fun is_update :: "event \<Rightarrow> bool" where
  "is_update (EsUpdate index doc_type ident body) = True"
| "is_update ev = False"

definition store_with_hits :: "hit list \<Rightarrow> client" where
  "store_with_hits hs =
     \<lparr>es_index = (\<lambda>n. None),
      es_health = (\<lambda>n. HealthStatus ''green''),
      es_search = (\<lambda>r. Inr \<lparr>total = int (length hs), hits = hs\<rparr>),
      es_update = (\<lambda>index doc_type ident body. None)\<rparr>"

subsection \<open>Strings and paths\<close>

text \<open>
  The string functions of Python and \<^verbatim>\<open>os.path\<close> that the module calls.
  \<open>split_on ch s\<close> is \<^verbatim>\<open>s.split(ch)\<close> (empty pieces are kept), \<open>path_join\<close> is
  \<^verbatim>\<open>os.path.join\<close> on POSIX, \<open>basename\<close> is \<^verbatim>\<open>os.path.basename\<close>, \<open>splitext_ext p\<close> is
  \<^verbatim>\<open>os.path.splitext(p)[1]\<close> (the last dot of the base name starts the extension, unless only
  dots come before it), \<open>lower\<close> is \<^verbatim>\<open>str.lower\<close> on ASCII, and \<open>replace old new s\<close> is
  \<^verbatim>\<open>s.replace(old, new)\<close> for a non-empty \<open>old\<close>.
\<close>

fun split_on :: "char \<Rightarrow> string \<Rightarrow> string list" where
  "split_on ch [] = [[]]"
| "split_on ch (x # xs) =
     (if x = ch then [] # split_on ch xs
      else (case split_on ch xs of p # ps \<Rightarrow> (x # p) # ps | [] \<Rightarrow> [[x]]))"

definition path_join :: "string \<Rightarrow> string \<Rightarrow> string" where
  "path_join a b =
     (if b \<noteq> [] \<and> hd b = CHR ''/'' then b
      else if a = [] \<or> last a = CHR ''/'' then a @ b
      else a @ ''/'' @ b)"

definition basename :: "string \<Rightarrow> string" where
  "basename p = last (split_on CHR ''/'' p)"

definition splitext_ext :: "string \<Rightarrow> string" where
  "splitext_ext p =
     (let b = basename p; after = last (split_on CHR ''.'' b);
          stem = take (length b - length after - 1) b
      in if CHR ''.'' \<in> set b \<and> (\<exists>ch \<in> set stem. ch \<noteq> CHR ''.'') then CHR ''.'' # after else [])"

definition lower_char :: "char \<Rightarrow> char" where
  "lower_char ch =
     (case map_of (zip ''ABCDEFGHIJKLMNOPQRSTUVWXYZ'' ''abcdefghijklmnopqrstuvwxyz'') ch of
        Some l \<Rightarrow> l
      | None \<Rightarrow> ch)"

definition lower :: "string \<Rightarrow> string" where
  "lower s = map lower_char s"

function replace :: "string \<Rightarrow> string \<Rightarrow> string \<Rightarrow> string" where
  "replace old new s =
     (if s = [] \<or> old = [] then s
      else if take (length old) s = old then new @ replace old new (drop (length old) s)
      else hd s # replace old new (tl s))"
  by pat_completeness auto
termination
  by (relation "measure (\<lambda>(old, new, s). length s)") auto

declare replace.simps [simp del]

subsection \<open>True division\<close>

text \<open>
  With \<^verbatim>\<open>from __future__ import division\<close>, \<^verbatim>\<open>a / b\<close> of two integers is the quotient rounded
  to the nearest double (53 significant bits, ties to the even neighbour), and an
  \<^verbatim>\<open>OverflowError\<close> when that is beyond the doubles. The module divides by powers of two only
  (\<^verbatim>\<open>1024\<close> and \<^verbatim>\<open>1024 * 1024\<close>), so the rounding is that of the dividend: \<open>round53 a\<close> is \<open>a\<close>
  rounded to 53 significant bits, and \<open>int_truediv a k\<close> is \<^verbatim>\<open>a / 2 ** k\<close>. A double divided
  by \<^verbatim>\<open>1024\<close> is the exact quotient (the results here are far from underflow).
\<close>

function bit_length :: "int \<Rightarrow> nat" where
  "bit_length n = (if n \<le> 0 then 0 else Suc (bit_length (n div 2)))"
  by pat_completeness auto
termination
  by (relation "measure nat") auto

declare bit_length.simps [simp del]

definition round53 :: "int \<Rightarrow> int" where
  "round53 a =
     (let n = \<bar>a\<bar>; k = bit_length n
      in if k \<le> 53 then a
         else (let s = k - 53; q = n div 2 ^ s; r = n mod 2 ^ s; half = 2 ^ (s - 1);
                   q' = (if half < r \<or> (r = half \<and> odd q) then q + 1 else q)
               in sgn a * (q' * 2 ^ s)))"

definition int_truediv :: "int \<Rightarrow> nat \<Rightarrow> error + real" where
  "int_truediv a k =
     (let m = round53 a
      in if 2 ^ (1024 + k) \<le> \<bar>m\<bar> then Inl OverflowError else Inr (real_of_int m / 2 ^ k))"

subsection \<open>The file system, the database and the manifest\<close>

text \<open>
  The file system is a tree of files and directories (no links): a file with its size and
  \<^verbatim>\<open>st_ctime\<close>, or a directory with its size, whether it may be read, and its entries in the
  order \<^verbatim>\<open>os.listdir\<close> returns them. Entry names are those of a file system: not empty,
  without a slash, neither \<^verbatim>\<open>.\<close> nor \<^verbatim>\<open>..\<close>, and different within one directory. Every
  directory may be searched.

  A path is resolved as POSIX does, component by component, keeping the directories passed
  through: every component is looked up in a directory (under a file nothing is found); an
  empty component (a doubled or trailing slash) and \<^verbatim>\<open>.\<close> stay where they are, \<^verbatim>\<open>..\<close> goes one
  directory up (the root is its own parent), a name goes to the entry of that name.
\<close>

datatype node = File int real | Dir int bool "(string \<times> node) list"

fun resolve_step :: "node list \<Rightarrow> string \<Rightarrow> node list option" where
  "resolve_step [] name = None"
| "resolve_step (File st_size ctime # parents) name = None"
| "resolve_step (Dir st_size readable entries # parents) name =
     (if name = [] \<or> name = ''.'' then Some (Dir st_size readable entries # parents)
      else if name = ''..''
      then Some (if parents = [] then [Dir st_size readable entries] else parents)
      else (case map_of entries name of
              None \<Rightarrow> None
            | Some n \<Rightarrow> Some (n # Dir st_size readable entries # parents)))"

fun resolve :: "node list \<Rightarrow> string list \<Rightarrow> node list option" where
  "resolve here [] = Some here"
| "resolve here (name # names) =
     (case resolve_step here name of None \<Rightarrow> None | Some there \<Rightarrow> resolve there names)"

text \<open>
  The rows of the Django models \<^verbatim>\<open>Transfer\<close> and \<^verbatim>\<open>File\<close> that the module reads;
  \<open>fileformatversions\<close> holds the triples that \<^verbatim>\<open>_get_file_formats\<close> (lines 791-803) reads and
  \<open>modificationtime\<close> the date already formatted by \<^verbatim>\<open>strftime('%Y-%m-%d')\<close>.
\<close>

record transfer_row =
  accessionid :: string
  currentlocation :: string

record file_row =
  row_uuid :: string
  fileformatversions :: "(val \<times> val \<times> val) list"
  modificationtime :: "string option"

text \<open>
  What the module reads of a parsed METS manifest: the first Dublin Core section with the
  texts \<^verbatim>\<open>findtext\<close> returns for its children, the \<^verbatim>\<open>xmltodict\<close> form of the whole document
  (after \<^verbatim>\<open>_remove_tool_output_from_mets\<close>), the \<^verbatim>\<open>CREATEDATE\<close> of the \<^verbatim>\<open>metsHdr\<close> element (the
  outer \<open>None\<close>: there is no such element), the transfer metadata, the \<^verbatim>\<open>xmlData\<close> of the
  \<^verbatim>\<open>dmdSec\<close> elements, the \<^verbatim>\<open>file\<close> entries of the groups \<^verbatim>\<open>original\<close> and \<^verbatim>\<open>metadata\<close>, and the
  \<^verbatim>\<open>amdSec\<close> elements by their \<^verbatim>\<open>ID\<close>. Of a \<^verbatim>\<open>file\<close> entry: its attributes \<^verbatim>\<open>ADMID\<close> and \<^verbatim>\<open>ID\<close>
  and the \<^verbatim>\<open>href\<close> of its \<^verbatim>\<open>FLocat\<close> child.
\<close>

record dublincore =
  dc_type :: "string option"
  dcterms_type :: "string option"
  dc_identifier :: "string option"
  dcterms_identifier :: "string option"
  dcterms_isPartOf :: "string option"

record amdsec =
  objectIdentifierValue :: "string option"
  amdsec_dict :: pydict

record mets_file =
  ADMID :: "string option"
  ID :: "string option"
  FLocat_href :: "string option option"

record mets =
  mets_dublincore :: "dublincore option"
  mets_dict :: pydict
  metsHdr_CREATEDATE :: "string option option"
  transfer_metadata :: "val list"
  dmdSec_xmlData :: "pydict list"
  original_files :: "mets_file list"
  metadata_files :: "mets_file list"
  amdSec_by_ID :: "string \<Rightarrow> amdsec option"

text \<open>
  Everything the module reads from outside the store: the file system and the working
  directory of the process (an absolute path), the database, the parser of the manifest
  (\<open>parse_mets p\<close> is \<^verbatim>\<open>ElementTree.parse(p)\<close> with the queries made on it), the dashboard
  identifier, the version, the clock, the date of today,
  \<^verbatim>\<open>calendar.timegm(time.strptime(s, '%Y-%m-%dT%H:%M:%S'))\<close> (\<open>None\<close>: \<^verbatim>\<open>ValueError\<close>), and
  the characters beyond ASCII that \<^verbatim>\<open>\w\<close> matches in the running interpreter (none on
  Python 2, the letters and digits of Unicode on Python 3).
\<close>

record env =
  fs :: node
  cwd :: string
  db_transfer :: "string \<Rightarrow> transfer_row option"
  db_file :: "string \<Rightarrow> string \<Rightarrow> file_row option"
  parse_mets :: "string \<Rightarrow> error + mets"
  dashboard_uuid :: string
  am_version :: string
  now :: real
  today :: string
  timegm_strptime :: "string \<Rightarrow> int option"
  unicode_word :: "char \<Rightarrow> bool"

text \<open>
  \<open>lookup_path env p\<close> is what \<^verbatim>\<open>os.stat(p)\<close> finds: nothing for the empty path; an
  absolute path is resolved from the root and any other path from the working directory.
  A path that no file system can hold (one with a NUL character) is not found, as
  \<^verbatim>\<open>os.path.exists\<close> answers since Python 3.8.
  \<^verbatim>\<open>os.path.exists\<close>, \<^verbatim>\<open>os.path.isfile\<close>, \<^verbatim>\<open>os.path.isdir\<close> and \<^verbatim>\<open>os.path.getsize\<close> are read off it.
\<close>

definition lookup_path :: "env \<Rightarrow> string \<Rightarrow> node option" where
  "lookup_path env p =
     (if p = [] then None
      else (case resolve [fs env]
                   (split_on CHR ''/'' (if hd p = CHR ''/'' then p else cwd env @ ''/'' @ p)) of
              Some (n # parents) \<Rightarrow> Some n
            | _ \<Rightarrow> None))"

definition path_exists :: "env \<Rightarrow> string \<Rightarrow> bool" where
  "path_exists env p = (lookup_path env p \<noteq> None)"

definition isfile :: "env \<Rightarrow> string \<Rightarrow> bool" where
  "isfile env p = (case lookup_path env p of Some (File st_size ctime) \<Rightarrow> True | _ \<Rightarrow> False)"

definition isdir :: "env \<Rightarrow> string \<Rightarrow> bool" where
  "isdir env p = (case lookup_path env p of Some (Dir st_size readable entries) \<Rightarrow> True | _ \<Rightarrow> False)"

definition getsize :: "env \<Rightarrow> string \<Rightarrow> error + int" where
  "getsize env p =
     (case lookup_path env p of
        Some (File st_size ctime) \<Rightarrow> Inr st_size
      | Some (Dir st_size readable entries) \<Rightarrow> Inr st_size
      | None \<Rightarrow> Inl OSError)"

subsection \<open>Walking a transfer directory\<close>

text \<open>
  \<^verbatim>\<open>_list_files_in_dir\<close> (lines 820-831). \<open>walk\<close> is the loop over the entries of one
  directory: each child path is appended to \<^verbatim>\<open>filepaths\<close>, and a readable directory is walked
  with the same list. \<open>list_files_in_dir\<close> is a call with both arguments.
  \<open>list_files_in_dir_default\<close> is the call \<^verbatim>\<open>_list_files_in_dir(path)\<close> of line 625: the
  parameter \<^verbatim>\<open>filepaths\<close> is then the list object created when the function was defined, which
  the call extends in place and returns.
\<close>

fun walk :: "string \<Rightarrow> (string \<times> node) list \<Rightarrow> string list \<Rightarrow> string list" where
  "walk path [] filepaths = filepaths"
| "walk path ((file, n) # rest) filepaths =
     (let child_path = path_join path file;
          filepaths1 = filepaths @ [child_path];
          filepaths2 = (case n of
                          Dir st_size True entries \<Rightarrow> walk child_path entries filepaths1
                        | _ \<Rightarrow> filepaths1)
      in walk path rest filepaths2)"

definition list_files_in_dir :: "env \<Rightarrow> string \<Rightarrow> string list \<Rightarrow> error + string list" where
  "list_files_in_dir env path filepaths =
     (case lookup_path env path of
        Some (Dir st_size True entries) \<Rightarrow> Inr (walk path entries filepaths)
      | _ \<Rightarrow> Inl OSError)"

definition list_files_in_dir_default ::
  "env \<Rightarrow> string \<Rightarrow> world \<Rightarrow> (error + string list) \<times> world" where
  "list_files_in_dir_default env path w =
     (case list_files_in_dir env path (default_filepaths w) of
        Inl e \<Rightarrow> (Inl e, w)
      | Inr filepaths \<Rightarrow> (Inr filepaths, w\<lparr>default_filepaths := filepaths\<rparr>))"

subsection \<open>Indexing a transfer\<close>

text \<open>
  \<^verbatim>\<open>_index_transfer_files\<close> (lines 593-681) with its helpers: \<open>transfer_name_of\<close> is
  \<^verbatim>\<open>currentlocation.split('/')[-2]\<close>, \<open>index_transfer_file\<close> is the body of the loop over the
  paths, which returns the new value of \<^verbatim>\<open>files_indexed\<close>.
\<close>

definition transfer_name_of :: "string \<Rightarrow> error + string" where
  "transfer_name_of location =
     (let parts = split_on CHR ''/'' location
      in if length parts < 2 then Inl IndexError else Inr (parts ! (length parts - 2)))"

definition get_file_formats :: "file_row \<Rightarrow> val list" where
  "get_file_formats f =
     map (\<lambda>(puid, format, group). DictV [(''puid'', puid), (''format'', format), (''group'', group)])
       (fileformatversions f)"

definition list_bulk_extractor_reports :: "env \<Rightarrow> string \<Rightarrow> string \<Rightarrow> string list" where
  "list_bulk_extractor_reports env transfer_path file_uuid =
     (let log_path = path_join (path_join transfer_path ''logs'') (''bulk-'' @ file_uuid)
      in if \<not> isdir env log_path then []
         else filter (\<lambda>report.
                        let path = path_join log_path (report @ ''.txt'')
                        in isfile env path \<and> (case getsize env path of Inr n \<Rightarrow> 0 < n | Inl e \<Rightarrow> False))
                [''telephone'', ''ccn'', ''ccn_track2'', ''pii''])"

definition ignore_files :: "string list" where
  "ignore_files = [''processingMCP.xml'']"

definition index_transfer_file ::
  "env \<Rightarrow> client \<Rightarrow> string \<Rightarrow> string \<Rightarrow> string \<Rightarrow> string \<Rightarrow> string \<Rightarrow> string \<Rightarrow> int \<Rightarrow> world
     \<Rightarrow> (error + int) \<times> world" where
  "index_transfer_file env c uuid path status accession_id transfer_name filepath files_indexed w =
     (case lookup_path env filepath of
        Some (File st_size ctime) \<Rightarrow>
          (let relative_path = replace path ''%transferDirectory%'' filepath;
               (file_uuid, formats, bulk_extractor_reports, modification_date) =
                 (case db_file env relative_path uuid of
                    Some f \<Rightarrow>
                      (row_uuid f, get_file_formats f,
                       list_bulk_extractor_reports env path (row_uuid f),
                       (case modificationtime f of Some d \<Rightarrow> d | None \<Rightarrow> []))
                  | None \<Rightarrow> ([], [], [], []));
               relative_path = replace ''%transferDirectory%'' (transfer_name @ ''/'') relative_path;
               file_extension = lower (drop 1 (splitext_ext filepath));
               filename = basename filepath
           in case int_truediv st_size 20 of
                Inl e \<Rightarrow> (Inl e, w)
              | Inr megabytes \<Rightarrow>
             (let create_time = ctime
              in if filename \<notin> set ignore_files then
                (let w1 = emit [Printfn ''Indexing {} (UUID: {})''
                                  [StrV relative_path, StrV file_uuid]] w;
                     indexData = DictV
                       [(''filename'', StrV filename),
                        (''relative_path'', StrV relative_path),
                        (''fileuuid'', StrV file_uuid),
                        (''sipuuid'', StrV uuid),
                        (''accessionid'', StrV accession_id),
                        (''status'', StrV status),
                        (''origin'', StrV (dashboard_uuid env)),
                        (''ingestdate'', StrV (today env)),
                        (''created'', FloatV create_time),
                        (''modification_date'', StrV modification_date),
                        (''size'', FloatV megabytes),
                        (''tags'', ListV []),
                        (''file_extension'', StrV file_extension),
                        (''bulk_extractor_reports'', ListV (map StrV bulk_extractor_reports)),
                        (''format'', ListV formats)]
                 in case wait_and_index c indexData ''transferfiles'' w1 of
                      (Inl e, w3) \<Rightarrow> (Inl e, w3)
                    | (Inr u, w3) \<Rightarrow> (Inr (files_indexed + 1), w3))
              else (Inr files_indexed,
                    emit [Printfn ''Skipping indexing {}'' [StrV relative_path]] w)))
      | _ \<Rightarrow> (Inr files_indexed, w))"

fun index_transfer_files_loop ::
  "env \<Rightarrow> client \<Rightarrow> string \<Rightarrow> string \<Rightarrow> string \<Rightarrow> string \<Rightarrow> string \<Rightarrow> string list \<Rightarrow> int \<Rightarrow> world
     \<Rightarrow> (error + int) \<times> world" where
  "index_transfer_files_loop env c uuid path status accession_id transfer_name [] files_indexed w =
     (Inr files_indexed, w)"
| "index_transfer_files_loop env c uuid path status accession_id transfer_name (filepath # rest)
     files_indexed w =
     (case index_transfer_file env c uuid path status accession_id transfer_name filepath
             files_indexed w of
        (Inl e, w1) \<Rightarrow> (Inl e, w1)
      | (Inr n, w1) \<Rightarrow>
          index_transfer_files_loop env c uuid path status accession_id transfer_name rest n w1)"

definition index_transfer_files ::
  "env \<Rightarrow> client \<Rightarrow> string \<Rightarrow> string \<Rightarrow> string \<Rightarrow> world \<Rightarrow> (error + int) \<times> world" where
  "index_transfer_files env c uuid path status w =
     (case (case db_transfer env uuid of
              Some transfer \<Rightarrow>
                (case transfer_name_of (currentlocation transfer) of
                   Inl e \<Rightarrow> Inl e
                 | Inr transfer_name \<Rightarrow> Inr (accessionid transfer, transfer_name))
            | None \<Rightarrow> Inr ([], [])) of
        Inl e \<Rightarrow> (Inl e, w)
      | Inr (accession_id, transfer_name) \<Rightarrow>
          (case list_files_in_dir_default env path w of
             (Inl e, w1) \<Rightarrow> (Inl e, w1)
           | (Inr filepaths, w1) \<Rightarrow>
               index_transfer_files_loop env c uuid path status accession_id transfer_name
                 filepaths 0 w1))"

text \<open>\<^verbatim>\<open>index_transfer_and_files\<close> (lines 539-590).\<close>

definition index_transfer_and_files ::
  "env \<Rightarrow> client \<Rightarrow> string \<Rightarrow> string \<Rightarrow> string \<Rightarrow> world \<Rightarrow> (error + int) \<times> world" where
  "index_transfer_and_files env c uuid path status w =
     (if \<not> path_exists env path then
        (let error_message = ''Transfer does not exist at: '' @ path
         in (Inr 1, emit [Log ERROR error_message [], PrintfnErr error_message] w))
      else
        (let w1 = emit [Printfn (''Transfer UUID: '' @ uuid) [],
                        Printfn ''Indexing Transfer files ...'' []] w
         in case index_transfer_files env c uuid path status w1 of
              (Inl e, w2) \<Rightarrow> (Inl e, w2)
            | (Inr files_indexed, w2) \<Rightarrow>
                (let w3 = emit [Printfn ''Files indexed: '' [IntV files_indexed],
                                Printfn ''Indexing Transfer ...'' []] w2
                 in case (case db_transfer env uuid of
                            Some transfer \<Rightarrow> transfer_name_of (currentlocation transfer)
                          | None \<Rightarrow> Inr []) of
                      Inl e \<Rightarrow> (Inl e, w3)
                    | Inr transfer_name \<Rightarrow>
                        (let transfer_data = DictV
                               [(''name'', StrV transfer_name),
                                (''status'', StrV status),
                                (''ingest_date'', StrV (today env)),
                                (''file_count'', IntV files_indexed),
                                (''uuid'', StrV uuid),
                                (''pending_deletion'', BoolV False)]
                         in case wait_and_index c transfer_data ''transfers'' w3 of
                              (Inl e, w5) \<Rightarrow> (Inl e, w5)
                            | (Inr u, w5) \<Rightarrow> (Inr 0, emit [Printfn ''Done.'' []] w5)))))"

text \<open>The index name and body of every \<^verbatim>\<open>client.index\<close> call in a trace, in order.\<close>

fun indexed_documents :: "event list \<Rightarrow> (string \<times> val) list" where
  "indexed_documents [] = []"
| "indexed_documents (EsIndex index doc_type body # evs) = (index, body) # indexed_documents evs"
| "indexed_documents (ev # evs) = indexed_documents evs"

text \<open>A file system with two transfer directories, and a database that knows neither.\<close>

definition two_transfers :: env where
  "two_transfers =
     \<lparr>fs = Dir 4096 True
             [(''t1'', Dir 4096 True [(''a.txt'', File 1048576 0)]),
              (''t2'', Dir 4096 True [(''b.txt'', File 2097152 0)])],
      cwd = ''/'',
      db_transfer = (\<lambda>uuid. None),
      db_file = (\<lambda>location transfer_id. None),
      parse_mets = (\<lambda>p. Inl OSError),
      dashboard_uuid = ''dashboard'',
      am_version = ''1.0'',
      now = 0,
      today = ''2019-01-01'',
      timegm_strptime = (\<lambda>s. None),
      unicode_word = (\<lambda>ch. False)\<rparr>"

subsection \<open>Indexing an AIP\<close>

text \<open>
  \<open>or_else a b\<close> is \<^verbatim>\<open>a or b\<close> for two results of \<^verbatim>\<open>findtext\<close>; \<open>opt_str\<close> turns such a
  result into a Python value.
\<close>

definition or_else :: "string option \<Rightarrow> string option \<Rightarrow> string option" where
  "or_else a b = (case a of Some s \<Rightarrow> if s \<noteq> [] then a else b | None \<Rightarrow> b)"

definition opt_str :: "string option \<Rightarrow> val" where
  "opt_str a = (case a of None \<Rightarrow> NoneV | Some s \<Rightarrow> StrV s)"

text \<open>
  The collection identifier and the parent reference, as \<^verbatim>\<open>index_aip_and_files\<close> (lines
  373-380) and as \<^verbatim>\<open>_index_aip_files\<close> (lines 458-466) compute them, and the creation time
  (lines 390-396).
\<close>

definition aip_collection_identifiers :: "mets \<Rightarrow> string option \<times> string option" where
  "aip_collection_identifiers m =
     (case mets_dublincore m of
        None \<Rightarrow> (None, None)
      | Some dc \<Rightarrow>
          (let aip_type = or_else (dc_type dc) (dcterms_type dc)
           in (if aip_type = Some ''Archival Information Collection''
               then or_else (dc_identifier dc) (dcterms_identifier dc)
               else None,
               dcterms_isPartOf dc)))"

definition file_collection_identifiers :: "mets \<Rightarrow> string option \<times> string option" where
  "file_collection_identifiers m =
     (case mets_dublincore m of
        None \<Rightarrow> (None, None)
      | Some dc \<Rightarrow>
          (let aip_type = or_else (dc_type dc) (dcterms_type dc)
           in if aip_type = Some ''Archival Information Collection''
              then (or_else (dc_identifier dc) (dcterms_identifier dc), None)
              else if aip_type = Some ''Archival Information Package''
              then (None, dcterms_isPartOf dc)
              else (None, None)))"

definition mets_created :: "env \<Rightarrow> string option \<Rightarrow> world \<Rightarrow> val \<times> world" where
  "mets_created env mets_created_attr w =
     (case mets_created_attr of
        None \<Rightarrow> (FloatV (now env), w)
      | Some a \<Rightarrow>
          if a = [] then (FloatV (now env), w)
          else (case timegm_strptime env a of
                  Some t \<Rightarrow> (IntV t, w)
                | None \<Rightarrow>
                    (FloatV (now env),
                     emit [Printfn ''Failed to parse METS CREATEDATE: %s'' [StrV a]] w)))"

text \<open>
  The pattern \<^verbatim>\<open>\w{8}-?\w{4}-?\w{4}-?\w{4}-?\w{12}\<close> of line 504. A string is a list of
  characters, one \<open>char\<close> for each character of the Python string (the characters of the
  model are the 256 of \<open>char\<close>). \<^verbatim>\<open>\w\<close> matches the letters and digits of ASCII and the
  underscore, and beyond ASCII what the interpreter takes for a letter or a digit
  (\<open>unicode_word\<close>). A hyphen is not a word character, so an
  optional hyphen is taken whenever it is there and a match attempt at a position never
  backtracks. \<open>take_word n\<close> is \<^verbatim>\<open>\w{n}\<close> and \<open>hyphen_word n\<close> is \<^verbatim>\<open>-?\w{n}\<close>, each with
  the rest of the string; \<open>match_uuix s\<close> is the match at the start of \<open>s\<close>;
  \<open>findall_uuix\<close> is \<^verbatim>\<open>re.findall\<close>: the matches from left to right, without overlap.
\<close>

definition is_word_char :: "env \<Rightarrow> char \<Rightarrow> bool" where
  "is_word_char env ch =
     (ch \<in> set ''abcdefghijklmnopqrstuvwxyzABCDEFGHIJKLMNOPQRSTUVWXYZ0123456789_'' \<or>
      (128 \<le> (of_char ch :: nat) \<and> unicode_word env ch))"

fun take_word :: "env \<Rightarrow> nat \<Rightarrow> string \<Rightarrow> (string \<times> string) option" where
  "take_word env 0 s = Some ([], s)"
| "take_word env (Suc n) [] = None"
| "take_word env (Suc n) (ch # s) =
     (if is_word_char env ch
      then (case take_word env n s of Some (m, r) \<Rightarrow> Some (ch # m, r) | None \<Rightarrow> None)
      else None)"

definition hyphen_word :: "env \<Rightarrow> nat \<Rightarrow> string \<Rightarrow> (string \<times> string) option" where
  "hyphen_word env n s =
     (case s of
        ch # r \<Rightarrow>
          if ch = CHR ''-''
          then (case take_word env n r of Some (m, r') \<Rightarrow> Some (ch # m, r') | None \<Rightarrow> None)
          else take_word env n s
      | [] \<Rightarrow> take_word env n s)"

definition match_uuix :: "env \<Rightarrow> string \<Rightarrow> (string \<times> string) option" where
  "match_uuix env s =
     (case take_word env 8 s of
        None \<Rightarrow> None
      | Some (m1, r1) \<Rightarrow>
          (case hyphen_word env 4 r1 of
             None \<Rightarrow> None
           | Some (m2, r2) \<Rightarrow>
               (case hyphen_word env 4 r2 of
                  None \<Rightarrow> None
                | Some (m3, r3) \<Rightarrow>
                    (case hyphen_word env 4 r3 of
                       None \<Rightarrow> None
                     | Some (m4, r4) \<Rightarrow>
                         (case hyphen_word env 12 r4 of
                            None \<Rightarrow> None
                          | Some (m5, r5) \<Rightarrow> Some (m1 @ m2 @ m3 @ m4 @ m5, r5))))))"

function findall_uuix :: "env \<Rightarrow> string \<Rightarrow> string list" where
  "findall_uuix env s =
     (if s = [] then []
      else (case match_uuix env s of
              Some (m, r) \<Rightarrow> m # findall_uuix env r
            | None \<Rightarrow> findall_uuix env (tl s)))"
  by pat_completeness auto
termination
proof (relation "measure (\<lambda>(env, s). length s)")
  show "wf (measure (\<lambda>(env :: env, s :: string). length s))" by simp
next
  fix env :: env and s :: string and x2 m r
  assume ne: "s \<noteq> []" and mt: "match_uuix env s = Some x2" and x2: "(m, r) = x2"
  have tw: "\<And>n s m r. take_word env n s = Some (m, r) \<Longrightarrow> length r + n = length s"
  proof -
    fix n s m r
    show "take_word env n s = Some (m, r) \<Longrightarrow> length r + n = length s"
    proof (induction env n s arbitrary: m r rule: take_word.induct)
      case (3 env n ch s)
      then show ?case by (auto split: if_splits option.splits)
    qed auto
  qed
  have hw: "\<And>n s m r. hyphen_word env n s = Some (m, r) \<Longrightarrow> length r + n \<le> length s"
    unfolding hyphen_word_def
    by (auto split: list.splits if_splits option.splits dest!: tw)
  from mt x2 obtain m1 r1 where a: "take_word env 8 s = Some (m1, r1)"
    by (auto simp: match_uuix_def split: option.splits)
  from mt x2 a obtain m2 r2 where b: "hyphen_word env 4 r1 = Some (m2, r2)"
    by (auto simp: match_uuix_def split: option.splits)
  from mt x2 a b obtain m3 r3 where c: "hyphen_word env 4 r2 = Some (m3, r3)"
    by (auto simp: match_uuix_def split: option.splits)
  from mt x2 a b c obtain m4 r4 where d: "hyphen_word env 4 r3 = Some (m4, r4)"
    by (auto simp: match_uuix_def split: option.splits)
  from mt x2 a b c d have e: "\<exists>m5. hyphen_word env 12 r4 = Some (m5, r)"
    by (auto simp: match_uuix_def split: option.splits)
  from tw [OF a] hw [OF b] hw [OF c] hw [OF d] e hw
  have "length r < length s" by fastforce
  then show "((env, r), (env, s)) \<in> measure (\<lambda>(env, s). length s)" by simp
next
  fix env :: env and s :: string
  assume "s \<noteq> []" "match_uuix env s = None"
  then show "((env, tl s), (env, s)) \<in> measure (\<lambda>(env, s). length s)" by (cases s) auto
qed

declare findall_uuix.simps [simp del]

text \<open>
  What the pattern describes, in the words of its parts: a UUID-shaped string is five groups
  of 8, 4, 4, 4 and 12 word characters, each of the last four with or without a hyphen
  before it.
\<close>

definition word_group :: "env \<Rightarrow> nat \<Rightarrow> string \<Rightarrow> bool" where
  "word_group env n s = (length s = n \<and> (\<forall>ch \<in> set s. is_word_char env ch))"

definition optional_hyphen :: "string \<Rightarrow> bool" where
  "optional_hyphen h = (h = [] \<or> h = ''-'')"

definition uuid_shaped :: "env \<Rightarrow> string \<Rightarrow> bool" where
  "uuid_shaped env u =
     (\<exists>g1 h2 g2 h3 g3 h4 g4 h5 g5.
        u = g1 @ (h2 @ g2) @ (h3 @ g3) @ (h4 @ g4) @ (h5 @ g5) \<and>
        word_group env 8 g1 \<and>
        optional_hyphen h2 \<and> word_group env 4 g2 \<and>
        optional_hyphen h3 \<and> word_group env 4 g3 \<and>
        optional_hyphen h4 \<and> word_group env 4 g4 \<and>
        optional_hyphen h5 \<and> word_group env 12 g5)"

text \<open>
  Lines 503-510: the identifier of a file from its \<^verbatim>\<open>ID\<close> attribute;
  \<^verbatim>\<open>len(set(uuids))\<close> is \<open>card (set uuids)\<close>.
\<close>

definition file_uuid_from_ID :: "env \<Rightarrow> string \<Rightarrow> string option" where
  "file_uuid_from_ID env ident =
     (let uuids = findall_uuix env ident
      in if card (set uuids) = 1 then Some (hd uuids) else None)"

text \<open>
  \<^verbatim>\<open>_index_aip_files\<close> (lines 431-536). \<open>file_index_data\<close> is \<^verbatim>\<open>indexData\<close> as it is when
  \<^verbatim>\<open>_try_to_index\<close> is called: the copy of \<^verbatim>\<open>fileData\<close> with the four entries the loop sets (the
  shared \<^verbatim>\<open>amdSec\<close> slot is emptied again after every file). \<open>index_aip_file\<close> is the body of
  the loop.
\<close>

definition file_index_data ::
  "env \<Rightarrow> string \<Rightarrow> string \<Rightarrow> string option \<Rightarrow> string option \<Rightarrow> pydict \<Rightarrow> val list \<Rightarrow> val list
     \<Rightarrow> string option \<Rightarrow> string \<Rightarrow> string \<Rightarrow> pydict \<Rightarrow> val" where
  "file_index_data env uuid name is_part_of aic_identifier dmdSec identifiers transferMetadata
     fileUUID filePath fileExtension amdSec =
     DictV
       [(''archivematicaVersion'', StrV (am_version env)),
        (''AIPUUID'', StrV uuid),
        (''sipName'', StrV name),
        (''FILEUUID'', opt_str fileUUID),
        (''indexedAt'', FloatV (now env)),
        (''filePath'', StrV filePath),
        (''fileExtension'', StrV fileExtension),
        (''isPartOf'', opt_str is_part_of),
        (''AICID'', opt_str aic_identifier),
        (''METS'', DictV [(''dmdSec'', DictV dmdSec), (''amdSec'', DictV amdSec)]),
        (''origin'', StrV (dashboard_uuid env)),
        (''identifiers'', ListV identifiers),
        (''transferMetadata'', ListV transferMetadata)]"

definition index_aip_file ::
  "env \<Rightarrow> client \<Rightarrow> mets \<Rightarrow> string \<Rightarrow> string \<Rightarrow> string option \<Rightarrow> string option \<Rightarrow> pydict
     \<Rightarrow> val list \<Rightarrow> mets_file \<Rightarrow> world \<Rightarrow> (error + unit) \<times> world" where
  "index_aip_file env c m uuid name is_part_of aic_identifier dmdSec identifiers file w =
     (case (case ADMID file of
              None \<Rightarrow>
                (case ID file of
                   None \<Rightarrow> Inl KeyError
                 | Some ident \<Rightarrow> Inr (file_uuid_from_ID env ident, []))
            | Some admID \<Rightarrow>
                (case amdSec_by_ID m admID of
                   None \<Rightarrow> Inl AttributeError
                 | Some amdSecInfo \<Rightarrow>
                     (case normalize (amdsec_dict amdSecInfo) of
                        Inl e \<Rightarrow> Inl e
                      | Inr amdSec \<Rightarrow> Inr (objectIdentifierValue amdSecInfo, amdSec)))) of
        Inl e \<Rightarrow> (Inl e, w)
      | Inr (fileUUID, amdSec) \<Rightarrow>
          (case FLocat_href file of
             None \<Rightarrow> (Inl AttributeError, w)
           | Some None \<Rightarrow> (Inl KeyError, w)
           | Some (Some filePath) \<Rightarrow>
               (let fileExtension = splitext_ext filePath;
                    indexData = file_index_data env uuid name is_part_of aic_identifier dmdSec
                      identifiers (transfer_metadata m) fileUUID filePath
                      (if fileExtension \<noteq> [] then lower (drop 1 fileExtension) else [])
                      amdSec
                in wait_and_index c indexData ''aipfiles'' w)))"

fun index_aip_files_loop ::
  "env \<Rightarrow> client \<Rightarrow> mets \<Rightarrow> string \<Rightarrow> string \<Rightarrow> string option \<Rightarrow> string option \<Rightarrow> pydict
     \<Rightarrow> val list \<Rightarrow> mets_file list \<Rightarrow> world \<Rightarrow> (error + unit) \<times> world" where
  "index_aip_files_loop env c m uuid name is_part_of aic_identifier dmdSec identifiers [] w =
     (Inr (), w)"
| "index_aip_files_loop env c m uuid name is_part_of aic_identifier dmdSec identifiers
     (file # files) w =
     (case index_aip_file env c m uuid name is_part_of aic_identifier dmdSec identifiers file w of
        (Inl e, w1) \<Rightarrow> (Inl e, w1)
      | (Inr u, w1) \<Rightarrow>
          index_aip_files_loop env c m uuid name is_part_of aic_identifier dmdSec identifiers
            files w1)"

definition index_aip_files ::
  "env \<Rightarrow> client \<Rightarrow> string \<Rightarrow> string \<Rightarrow> string \<Rightarrow> val list \<Rightarrow> world \<Rightarrow> (error + int) \<times> world" where
  "index_aip_files env c uuid mets_path name identifiers w =
     (case parse_mets env mets_path of
        Inl e \<Rightarrow> (Inl e, w)
      | Inr m \<Rightarrow>
          (let w1 = emit [StdPrint ''Removed FITS output from METS.''] w;
               dmdSecData = (if dmdSec_xmlData m = [] then [] else last (dmdSec_xmlData m));
               (aic_identifier, is_part_of) = file_collection_identifiers m
           in case normalize dmdSecData of
                Inl e \<Rightarrow> (Inl e, w1)
              | Inr dmdSec \<Rightarrow>
                  (let files = original_files m @ metadata_files m
                   in case index_aip_files_loop env c m uuid name is_part_of aic_identifier
                             dmdSec identifiers files w1 of
                        (Inl e, w2) \<Rightarrow> (Inl e, w2)
                      | (Inr u, w2) \<Rightarrow> (Inr (int (length files)), w2))))"

text \<open>
  \<^verbatim>\<open>index_aip_and_files\<close> (lines 336-428): \<open>index_aip_checked\<close> is what follows the check
  of the two paths (lines 363-428).
\<close>

definition index_aip_checked ::
  "env \<Rightarrow> client \<Rightarrow> string \<Rightarrow> string \<Rightarrow> string \<Rightarrow> string \<Rightarrow> int option \<Rightarrow> val \<Rightarrow> val list \<Rightarrow> bool
     \<Rightarrow> world \<Rightarrow> (error + int) \<times> world" where
  "index_aip_checked env c uuid path mets_path name aip_size aips_in_aic identifiers encrypted w =
     (let w1 = emit [Printfn (''AIP UUID: '' @ uuid) [], Printfn ''Indexing AIP ...'' []] w
      in case parse_mets env mets_path of
           Inl e \<Rightarrow> (Inl e, w1)
         | Inr m \<Rightarrow>
             (let w2 = emit [StdPrint ''Removed FITS output from METS.''] w1;
                  (aic_identifier, is_part_of) = aip_collection_identifiers m
              in case normalize (mets_dict m) of
                   Inl e \<Rightarrow> (Inl e, w2)
                 | Inr mets_data \<Rightarrow>
                     (case metsHdr_CREATEDATE m of
                        None \<Rightarrow> (Inl AttributeError, w2)
                      | Some mets_created_attr \<Rightarrow>
                          (let (created, w3) = mets_created env mets_created_attr w2
                           in case (case aip_size of
                                      Some n \<Rightarrow> if n \<noteq> 0 then Inr n else getsize env path
                                    | None \<Rightarrow> getsize env path) of
                                Inl e \<Rightarrow> (Inl e, w3)
                              | Inr byte_count \<Rightarrow>
                                 (case int_truediv byte_count 10 of
                                    Inl e \<Rightarrow> (Inl e, w3)
                                  | Inr kilobytes \<Rightarrow>
                                  (let aip_data = DictV
                                         [(''uuid'', StrV uuid),
                                          (''name'', StrV name),
                                          (''filePath'', StrV path),
                                          (''size'', FloatV (kilobytes / 1024)),
                                          (''mets'', DictV mets_data),
                                          (''origin'', StrV (dashboard_uuid env)),
                                          (''created'', created),
                                          (''AICID'', opt_str aic_identifier),
                                          (''isPartOf'', opt_str is_part_of),
                                          (''countAIPsinAIC'', aips_in_aic),
                                          (''identifiers'', ListV identifiers),
                                          (''transferMetadata'', ListV (transfer_metadata m)),
                                          (''encrypted'', BoolV encrypted)]
                                   in case wait_and_index c aip_data ''aips'' w3 of
                                        (Inl e, w5) \<Rightarrow> (Inl e, w5)
                                      | (Inr u, w5) \<Rightarrow>
                                          (let w6 = emit [Printfn ''Done.'' [],
                                                          Printfn ''Indexing AIP files ...'' []] w5
                                           in case index_aip_files env c uuid mets_path name
                                                     identifiers w6 of
                                                (Inl e, w7) \<Rightarrow> (Inl e, w7)
                                              | (Inr files_indexed, w7) \<Rightarrow>
                                                  (Inr 0,
                                                   emit [Printfn ''Files indexed: ''
                                                           [IntV files_indexed]] w7))))))))"

definition index_aip_and_files ::
  "env \<Rightarrow> client \<Rightarrow> string \<Rightarrow> string \<Rightarrow> string \<Rightarrow> string \<Rightarrow> int option \<Rightarrow> val \<Rightarrow> val list \<Rightarrow> bool
     \<Rightarrow> world \<Rightarrow> (error + int) \<times> world" where
  "index_aip_and_files env c uuid path mets_path name aip_size aips_in_aic identifiers encrypted w =
     (let error_message = None;
          error_message = (if \<not> path_exists env path
                           then Some (''AIP does not exist at: '' @ path) else error_message);
          error_message = (if \<not> path_exists env mets_path
                           then Some (''METS file does not exist at: '' @ mets_path)
                           else error_message)
      in case error_message of
           Some msg \<Rightarrow>
             if msg \<noteq> [] then (Inr 1, emit [Log ERROR msg [], PrintfnErr msg] w)
             else index_aip_checked env c uuid path mets_path name aip_size aips_in_aic
                    identifiers encrypted w
         | None \<Rightarrow>
             index_aip_checked env c uuid path mets_path name aip_size aips_in_aic
               identifiers encrypted w)"

text \<open>
  A manifest without a Dublin Core section and with two metadata files, in an environment
  where a three-megabyte AIP and its manifest exist.
\<close>

definition example_mets :: mets where
  "example_mets =
     \<lparr>mets_dublincore = None,
      mets_dict = [(''mets:mets'', DictV [(''@OBJID'', StrV ''x'')])],
      metsHdr_CREATEDATE = Some (Some ''2019-01-01T00:00:00''),
      transfer_metadata = [],
      dmdSec_xmlData = [],
      original_files = [],
      metadata_files =
        [\<lparr>ADMID = None,
          ID = Some ''file-3b0a0401-0b6a-4a64-b1e8-2c1d0e5f9a11-3b0a0401-0b6a-4a64-b1e8-2c1d0e5f9a11'',
          FLocat_href = Some (Some ''objects/metadata/Notes.TXT'')\<rparr>,
         \<lparr>ADMID = None,
          ID = Some ''file-3b0a0401-0b6a-4a64-b1e8-2c1d0e5f9a11-7c9e6679-7425-40de-944b-e07fc1f90ae7'',
          FLocat_href = Some (Some ''objects/metadata/other'')\<rparr>],
      amdSec_by_ID = (\<lambda>ident. None)\<rparr>"

definition example_env :: env where
  "example_env =
     \<lparr>fs = Dir 4096 True
             [(''aips'', Dir 4096 True
                [(''aip.7z'', File 3145728 0), (''METS.xml'', File 1024 0)])],
      cwd = ''/'',
      db_transfer = (\<lambda>uuid. None),
      db_file = (\<lambda>location transfer_id. None),
      parse_mets = (\<lambda>p. if p = ''/aips/METS.xml'' then Inr example_mets else Inl OSError),
      dashboard_uuid = ''dashboard'',
      am_version = ''1.0'',
      now = 0,
      today = ''2019-01-01'',
      timegm_strptime = (\<lambda>s. if s = ''2019-01-01T00:00:00'' then Some 1546300800 else None),
      unicode_word = (\<lambda>ch. False)\<rparr>"

text \<open>\<^verbatim>\<open>doc[key]\<close> for a document.\<close>

fun doc_field :: "string \<Rightarrow> val \<Rightarrow> val option" where
  "doc_field key (DictV d) = map_of d key"
| "doc_field key v = None"


section \<open>Properties\<close>

subsection \<open>The schema normalizer\<close>

lemma normalize_twice:
  "normalize_dict_values (normalize_dict_values d) = normalize_dict_values d"
  "normalize_list_dict_elements (normalize_list_dict_elements xs) = normalize_list_dict_elements xs"
  by (induction d and xs rule: normalize_dict_values_normalize_list_dict_elements.induct)
     (auto split: val.splits)

lemma normalize_dict_values_scalars:
  "\<forall>(k, v) \<in> set d. is_scalar v \<Longrightarrow> normalize_dict_values d = d"
proof (induction d)
  case Nil
  then show ?case by simp
next
  case (Cons kv d)
  obtain k v where kv: "kv = (k, v)" by (cases kv)
  with Cons.prems have "is_scalar v" by simp
  then have "(case v of DictV d \<Rightarrow> ListV [DictV (normalize_dict_values d)]
            | ListV xs \<Rightarrow> ListV (normalize_list_dict_elements xs)
            | _ \<Rightarrow> v) = v" by (cases v) simp_all
  with Cons kv show ?case by simp
qed

lemma dict_set_fresh: "k \<notin> fst ` set d \<Longrightarrow> dict_set d k v = d @ [(k, v)]"
  by (induction d) auto

lemma rename_items_scalar_step:
  "is_scalar v \<Longrightarrow> rename_items ((k, v) # d) new = rename_items d (dict_set new k v)"
  by (cases v) simp_all

lemma rename_items_scalars:
  "\<forall>(k, v) \<in> set d. is_scalar v \<Longrightarrow> distinct (map fst (new @ d)) \<Longrightarrow>
   rename_items d new = Inr (new @ d)"
proof (induction d arbitrary: new)
  case Nil
  then show ?case by simp
next
  case (Cons kv d)
  obtain k v where kv: "kv = (k, v)" by (cases kv)
  from Cons.prems kv have sc: "is_scalar v" and rest: "\<forall>(k, v) \<in> set d. is_scalar v" by auto
  from Cons.prems kv have fresh: "k \<notin> fst ` set new" by auto
  from Cons.prems kv have dist: "distinct (map fst ((new @ [(k, v)]) @ d))" by auto
  have "rename_items (kv # d) new = rename_items d (dict_set new k v)"
    unfolding kv by (rule rename_items_scalar_step [OF sc])
  also have "\<dots> = rename_items d (new @ [(k, v)])"
    using fresh by (simp add: dict_set_fresh)
  also have "\<dots> = Inr ((new @ [(k, v)]) @ d)"
    using Cons.IH [OF rest dist] .
  finally show ?case using kv by simp
qed

lemma rename_error_kind:
  "rename_items d new = Inl e \<Longrightarrow> e = IndexError"
  "rename_list_elements_if_they_are_dicts xs = Inl e \<Longrightarrow> e = IndexError"
proof (induction d new and xs arbitrary: e and e rule: rename_items_rename_list_elements_if_they_are_dicts.induct)
  case (1 new)
  then show ?case by simp
next
  case (2 key v rest new)
  show ?case
  proof (cases v)
    case (ListV xs)
    with 2 show ?thesis
      by (cases xs; cases "rename_list_elements_if_they_are_dicts xs") auto
  next
    case (DictV d)
    with 2 show ?thesis
      by (cases "rename_items d []") auto
  qed (use 2 in auto)
next
  case 3
  then show ?case by simp
next
  case (4 x xs)
  show ?case
  proof (cases x)
    case (ListV ys)
    with 4 show ?thesis
      by (cases "rename_list_elements_if_they_are_dicts ys"; cases "rename_list_elements_if_they_are_dicts xs") auto
  next
    case (DictV d)
    with 4 show ?thesis
      by (cases "rename_items d []"; cases "rename_list_elements_if_they_are_dicts xs") auto
  qed (use 4 in \<open>cases "rename_list_elements_if_they_are_dicts xs"; auto\<close>)+
qed

lemma rename_items_empty_list:
  "(k, ListV []) \<in> set d \<Longrightarrow> rename_items d new = Inl IndexError"
proof (induction d arbitrary: new)
  case Nil
  then show ?case by simp
next
  case (Cons kv d)
  obtain k' v where kv: "kv = (k', v)" by (cases kv)
  show ?case
  proof (cases "kv = (k, ListV [])")
    case True
    then show ?thesis by simp
  next
    case False
    with Cons.prems have "(k, ListV []) \<in> set d" by auto
    then have ih: "\<And>new. rename_items d new = Inl IndexError" using Cons.IH by blast
    show ?thesis
    proof (cases "rename_items (kv # d) new")
      case (Inl e)
      then show ?thesis using rename_error_kind(1) by simp
    next
      case (Inr r)
      show ?thesis
      proof (cases v)
        case (ListV xs)
        with Inr kv ih show ?thesis
          by (cases xs; cases "rename_list_elements_if_they_are_dicts xs") auto
      next
        case (DictV c)
        with Inr kv ih show ?thesis
          by (cases "rename_items c []") auto
      qed (use Inr kv ih in auto)
    qed
  qed
qed

lemma set_dict_set: "set (dict_set new k v) \<subseteq> insert (k, v) (set new)"
  by (induction new) (auto split: if_splits)

lemma keys_dict_set:
  "map fst (dict_set new k v) = (if k \<in> set (map fst new) then map fst new else map fst new @ [k])"
  by (induction new) (force simp: image_iff)+

lemma distinct_dict_set:
  "distinct (map fst new) \<Longrightarrow> distinct (map fst (dict_set new k v))"
  by (simp add: keys_dict_set)

lemma rename_items_step:
  assumes "rename_items ((key, v) # rest) new = Inr r"
  shows "\<exists>k' v'. rename_items rest (dict_set new k' v') = Inr r \<and>
           (is_scalar v \<and> k' = key \<and> v' = v \<or>
            \<not> is_scalar v \<and> \<not> is_scalar v' \<and> length key < length k')"
proof (cases v)
  case (ListV xs)
  with assms show ?thesis
    by (cases xs; cases "rename_list_elements_if_they_are_dicts xs") fastforce+
next
  case (DictV c)
  with assms show ?thesis
    by (cases "rename_items c []") fastforce+
qed (use assms in auto)

lemma rename_items_distinct:
  "rename_items d new = Inr r \<Longrightarrow> distinct (map fst new) \<Longrightarrow> distinct (map fst r)"
proof (induction d arbitrary: new)
  case Nil
  then show ?case by simp
next
  case (Cons kv d)
  obtain key v where kv: "kv = (key, v)" by (cases kv)
  from Cons.prems(1) kv obtain k' v' where "rename_items d (dict_set new k' v') = Inr r"
    using rename_items_step by blast
  then show ?case using Cons.IH Cons.prems(2) distinct_dict_set by blast
qed

lemma rename_items_nonscalar_origin:
  "rename_items d new = Inr r \<Longrightarrow> (k', v') \<in> set r \<Longrightarrow> \<not> is_scalar v' \<Longrightarrow>
   (k', v') \<in> set new \<or> (\<exists>k v. (k, v) \<in> set d \<and> \<not> is_scalar v \<and> length k < length k')"
proof (induction d arbitrary: new)
  case Nil
  then show ?case by simp
next
  case (Cons kv d)
  obtain key v where kv: "kv = (key, v)" by (cases kv)
  from Cons.prems(1) kv obtain k1 v1 where
    step: "rename_items d (dict_set new k1 v1) = Inr r" and
    alt: "is_scalar v \<and> k1 = key \<and> v1 = v \<or>
          \<not> is_scalar v \<and> \<not> is_scalar v1 \<and> length key < length k1"
    using rename_items_step by blast
  from Cons.IH [OF step Cons.prems(2,3)]
  consider "(k', v') \<in> set (dict_set new k1 v1)"
    | "\<exists>k v. (k, v) \<in> set d \<and> \<not> is_scalar v \<and> length k < length k'" by blast
  then show ?case
  proof cases
    case 1
    then have "(k', v') = (k1, v1) \<or> (k', v') \<in> set new" using set_dict_set by fastforce
    then show ?thesis
    proof
      assume eq: "(k', v') = (k1, v1)"
      with alt Cons.prems(3) have "\<not> is_scalar v \<and> length key < length k'" by auto
      with kv show ?thesis by auto
    qed simp
  next
    case 2
    then show ?thesis by auto
  qed
qed

lemma normalize_dict_values_nonscalar_origin:
  "(k, v) \<in> set (normalize_dict_values d) \<Longrightarrow> \<not> is_scalar v \<Longrightarrow>
   \<exists>v0. (k, v0) \<in> set d \<and> \<not> is_scalar v0"
proof (induction d)
  case Nil
  then show ?case by simp
next
  case (Cons kv d)
  obtain key w where kv: "kv = (key, w)" by (cases kv)
  show ?case
  proof (cases "(k, v) \<in> set (normalize_dict_values d)")
    case True
    with Cons show ?thesis by auto
  next
    case False
    with Cons.prems kv have "k = key" and
      "v = (case w of DictV d \<Rightarrow> ListV [DictV (normalize_dict_values d)]
            | ListV xs \<Rightarrow> ListV (normalize_list_dict_elements xs) | _ \<Rightarrow> w)" by auto
    with Cons.prems(2) have "\<not> is_scalar w" by (cases w) auto
    with kv \<open>k = key\<close> show ?thesis by auto
  qed
qed

lemma normalize_fixpoint_descent:
  assumes fp: "normalize y = Inr y"
  shows "\<not> (\<exists>k v. (k, v) \<in> set y \<and> \<not> is_scalar v \<and> length k = n)"
proof (induction n rule: less_induct)
  case (less n)
  show ?case
  proof
    assume "\<exists>k v. (k, v) \<in> set y \<and> \<not> is_scalar v \<and> length k = n"
    then obtain k v where kv: "(k, v) \<in> set y" "\<not> is_scalar v" "length k = n" by blast
    from fp have "rename_items (normalize_dict_values y) [] = Inr y"
      by (simp add: normalize_def rename_dict_keys_with_child_dicts_def)
    from rename_items_nonscalar_origin [OF this kv(1,2)]
    obtain k1 v1 where "(k1, v1) \<in> set (normalize_dict_values y)" "\<not> is_scalar v1"
      "length k1 < length k" by auto
    with normalize_dict_values_nonscalar_origin obtain v0 where
      "(k1, v0) \<in> set y" "\<not> is_scalar v0" by blast
    with less [of "length k1"] \<open>length k1 < length k\<close> kv(3) show False by blast
  qed
qed

lemma normalize_fixpoint_scalars:
  "normalize y = Inr y \<Longrightarrow> (k, v) \<in> set y \<Longrightarrow> is_scalar v"
  using normalize_fixpoint_descent by blast

lemma normalize_distinct: "normalize x = Inr y \<Longrightarrow> distinct (map fst y)"
  unfolding normalize_def rename_dict_keys_with_child_dicts_def
  using rename_items_distinct [of _ "[]"] by simp

lemma normalize_scalars_id:
  "\<forall>(k, v) \<in> set x. is_scalar v \<Longrightarrow> distinct (map fst x) \<Longrightarrow> normalize x = Inr x"
  using rename_items_scalars [of x "[]"]
  by (simp add: normalize_def rename_dict_keys_with_child_dicts_def normalize_dict_values_scalars)

text \<open>
  Claim C1, as stated, fails: normalising \<^verbatim>\<open>{'a': ['s']}\<close> gives \<^verbatim>\<open>{'a_str_list': ['s']}\<close>, and
  normalising that again gives \<^verbatim>\<open>{'a_str_list_str_list': ['s']}\<close>: the renaming pass tags a
  list-valued key each time it runs.
\<close>

theorem normalize_not_idempotent:
  "normalize [(''a'', ListV [StrV ''s''])] = Inr [(''a_str_list'', ListV [StrV ''s''])] \<and>
   normalize [(''a_str_list'', ListV [StrV ''s''])]
     = Inr [(''a_str_list_str_list'', ListV [StrV ''s''])] \<and>
   normalize [(''a_str_list'', ListV [StrV ''s''])] \<noteq> Inr [(''a_str_list'', ListV [StrV ''s''])]"
  by (simp add: normalize_def rename_dict_keys_with_child_dicts_def)

text \<open>
  Claim C1, amended. The shape-stabilising pass \<open>normalize_dict_values\<close> is idempotent on
  every tree. For the full normalisation, whenever \<open>normalize x\<close> returns \<open>y\<close>, a second
  application returns the same result exactly when no key of \<open>y\<close> holds a list or a mapping,
  that is, when every top-level value of \<open>y\<close> is a scalar.
\<close>

theorem normalize_idempotent_amended:
  "normalize_dict_values (normalize_dict_values x) = normalize_dict_values x \<and>
   (\<forall>y. normalize x = Inr y \<longrightarrow>
      (normalize y = normalize x \<longleftrightarrow> (\<forall>(k, v) \<in> set y. is_scalar v)))"
proof (intro conjI allI impI)
  show "normalize_dict_values (normalize_dict_values x) = normalize_dict_values x"
    by (rule normalize_twice(1))
next
  fix y
  assume n: "normalize x = Inr y"
  show "normalize y = normalize x \<longleftrightarrow> (\<forall>(k, v) \<in> set y. is_scalar v)"
  proof
    assume "normalize y = normalize x"
    with n have "normalize y = Inr y" by simp
    then show "\<forall>(k, v) \<in> set y. is_scalar v"
      using normalize_fixpoint_scalars by blast
  next
    assume "\<forall>(k, v) \<in> set y. is_scalar v"
    then have "normalize y = Inr y"
      using normalize_distinct [OF n] by (rule normalize_scalars_id)
    with n show "normalize y = normalize x" by simp
  qed
qed

theorem normalize_idempotent_amended_witness:
  "normalize_dict_values (normalize_dict_values [(''a'', DictV [(''b'', StrV ''c'')])])
     = [(''a'', ListV [DictV [(''b'', StrV ''c'')]])] \<and>
   normalize [(''a'', StrV ''s''), (''n'', IntV 3)] = Inr [(''a'', StrV ''s''), (''n'', IntV 3)] \<and>
   normalize [(''a'', DictV [(''b'', StrV ''c'')])]
     = Inr [(''a_dict_list'', ListV [DictV [(''b'', StrV ''c'')]])] \<and>
   normalize [(''a_dict_list'', ListV [DictV [(''b'', StrV ''c'')]])]
     \<noteq> normalize [(''a'', DictV [(''b'', StrV ''c'')])]"
  using normalize_idempotent_amended [of "[(''a'', StrV ''s''), (''n'', IntV 3)]"]
        normalize_idempotent_amended [of "[(''a'', DictV [(''b'', StrV ''c'')])]"]
  by (simp add: normalize_def rename_dict_keys_with_child_dicts_def)

text \<open>
  Claim C10: the key-renaming pass is not total. On every mapping that holds an empty list
  under some key, \<open>rename_dict_keys_with_child_dicts\<close> raises \<^verbatim>\<open>IndexError\<close> (the read of
  \<^verbatim>\<open>data[key][0]\<close>) instead of returning a mapping.
\<close>

theorem rename_fails_on_empty_list:
  "(k, ListV []) \<in> set data \<Longrightarrow> rename_dict_keys_with_child_dicts data = Inl IndexError"
  unfolding rename_dict_keys_with_child_dicts_def by (rule rename_items_empty_list)

theorem rename_fails_on_empty_list_witness:
  "rename_dict_keys_with_child_dicts [(''a'', StrV ''s''), (''tags'', ListV [])] = Inl IndexError"
  using rename_fails_on_empty_list [of "''tags''" "[(''a'', StrV ''s''), (''tags'', ListV [])]"]
  by simp

subsection \<open>The resilient writer, queries and updates\<close>







lemma document_ids_from_field_query_result:
  assumes "es_search c \<lparr>sr_index = None, sr_doc_type = Some (join_comma doc_types),
                         sr_field = field, sr_value = escape_slashes value,
                         sr_size = Some MAX_QUERY_SIZE, sr_fields = None\<rparr> = Inr results"
  shows "fst (document_ids_from_field_query c index doc_types field value w)
           = Inr (map hit_id (hits results))"
    and "filter is_update (events (snd (document_ids_from_field_query c index doc_types field value w)))
           = filter is_update (events w)"
  using assms
  by (simp_all add: document_ids_from_field_query_def search_all_results_def client_search_def
        emit_def Let_def)

lemma update_field_not_single:
  assumes s: "es_search c \<lparr>sr_index = None, sr_doc_type = Some (join_comma [doc_type]),
                         sr_field = ''uuid'', sr_value = escape_slashes uuid,
                         sr_size = Some MAX_QUERY_SIZE, sr_fields = None\<rparr> = Inr results"
    and n: "length (hits results) \<noteq> 1"
  shows "fst (update_field c uuid index doc_type field status w) = Inr ()"
    and "Log ERROR ''Unable to find document with UUID {} in index {}'' [StrV uuid, StrV index]
           \<in> set (events (snd (update_field c uuid index doc_type field status w)))"
    and "filter is_update (events (snd (update_field c uuid index doc_type field status w)))
           = filter is_update (events w)"
proof -
  obtain ids w1 where q: "document_ids_from_field_query c index [doc_type] ''uuid'' uuid w = (Inr ids, w1)"
    and ids: "ids = map hit_id (hits results)"
    and u: "filter is_update (events w1) = filter is_update (events w)"
    using document_ids_from_field_query_result [OF s, of index w]
    by (cases "document_ids_from_field_query c index [doc_type] ''uuid'' uuid w") auto
  from n ids have "length ids \<noteq> 1" by simp
  then have r: "update_field c uuid index doc_type field status w
      = (Inr (), emit [Log ERROR ''Unable to find document with UUID {} in index {}''
                         [StrV uuid, StrV index]] w1)"
    by (simp add: update_field_def document_id_from_field_query_def q)
  show "fst (update_field c uuid index doc_type field status w) = Inr ()"
    by (simp add: r)
  show "Log ERROR ''Unable to find document with UUID {} in index {}'' [StrV uuid, StrV index]
           \<in> set (events (snd (update_field c uuid index doc_type field status w)))"
    by (simp add: r emit_def)
  show "filter is_update (events (snd (update_field c uuid index doc_type field status w)))
           = filter is_update (events w)"
    by (simp add: r emit_def u)
qed

text \<open>
  Claim C4, as stated, fails: with two documents matching the identifier, \<open>mark_aip_stored\<close>
  searches, logs that it is unable to find the document, and returns; the trace holds no
  update call.
\<close>

theorem update_field_ambiguous_counterexample:
  "mark_aip_stored
     (store_with_hits [\<lparr>hit_id = ''doc1'', hit_fields = None\<rparr>, \<lparr>hit_id = ''doc2'', hit_fields = None\<rparr>])
     ''aip-1'' initial_world
   = (Inr (),
      initial_world\<lparr>events :=
        [EsSearch \<lparr>sr_index = None, sr_doc_type = Some ''aip'', sr_field = ''uuid'',
                   sr_value = ''aip-1'', sr_size = Some 50000, sr_fields = None\<rparr>,
         Log ERROR ''Unable to find document with UUID {} in index {}''
           [StrV ''aip-1'', StrV ''aips'']]\<rparr>)"
  by (simp add: mark_aip_stored_def update_field_def document_id_from_field_query_def
        document_ids_from_field_query_def search_all_results_def client_search_def emit_def
        store_with_hits_def initial_world_def MAX_QUERY_SIZE_def join_comma_def
        escape_slashes_def)

text \<open>
  Claim C4, amended: when the lookup of a status update returns more than one matching
  document, \<open>update_field\<close> logs an error, returns normally and issues no update call.
\<close>

theorem update_field_ambiguous_skipped:
  "es_search c \<lparr>sr_index = None, sr_doc_type = Some (join_comma [doc_type]),
                sr_field = ''uuid'', sr_value = escape_slashes uuid,
                sr_size = Some MAX_QUERY_SIZE, sr_fields = None\<rparr> = Inr results \<Longrightarrow>
   1 < length (hits results) \<Longrightarrow>
   fst (update_field c uuid index doc_type field status w) = Inr () \<and>
   Log ERROR ''Unable to find document with UUID {} in index {}'' [StrV uuid, StrV index]
     \<in> set (events (snd (update_field c uuid index doc_type field status w))) \<and>
   filter is_update (events (snd (update_field c uuid index doc_type field status w)))
     = filter is_update (events w)"
  using update_field_not_single [of c doc_type uuid results index field status w] by simp

theorem update_field_ambiguous_skipped_witness:
  "fst (update_field
          (store_with_hits [\<lparr>hit_id = ''doc1'', hit_fields = None\<rparr>, \<lparr>hit_id = ''doc2'', hit_fields = None\<rparr>])
          ''aip-1'' ''aips'' ''aip'' ''status'' (StrV ''UPLOADED'') initial_world) = Inr () \<and>
   filter is_update (events (snd (update_field
          (store_with_hits [\<lparr>hit_id = ''doc1'', hit_fields = None\<rparr>, \<lparr>hit_id = ''doc2'', hit_fields = None\<rparr>])
          ''aip-1'' ''aips'' ''aip'' ''status'' (StrV ''UPLOADED'') initial_world))) = []"
  using update_field_ambiguous_skipped
          [where c = "store_with_hits [\<lparr>hit_id = ''doc1'', hit_fields = None\<rparr>, \<lparr>hit_id = ''doc2'', hit_fields = None\<rparr>]"
             and uuid = "''aip-1''" and index = "''aips''" and doc_type = "''aip''"
             and field = "''status''" and status = "StrV ''UPLOADED''" and w = initial_world
             and results = "\<lparr>total = 2, hits = [\<lparr>hit_id = ''doc1'', hit_fields = None\<rparr>, \<lparr>hit_id = ''doc2'', hit_fields = None\<rparr>]\<rparr>"]
  by (simp add: store_with_hits_def initial_world_def)

lemma set_file_tags_by_count:
  assumes s: "es_search c \<lparr>sr_index = None, sr_doc_type = Some (join_comma [''transferfile'']),
                         sr_field = ''fileuuid'', sr_value = escape_slashes uuid,
                         sr_size = Some MAX_QUERY_SIZE, sr_fields = None\<rparr> = Inr results"
  shows "hits results = [] \<Longrightarrow> fst (set_file_tags c uuid tags w) = Inl EmptySearchResultError"
    and "hits results = [] \<Longrightarrow>
           filter is_update (events (snd (set_file_tags c uuid tags w))) = filter is_update (events w)"
    and "1 < length (hits results) \<Longrightarrow> fst (set_file_tags c uuid tags w) = Inl TooManyResultsError"
    and "hits results = [h] \<Longrightarrow>
           filter is_update (events (snd (set_file_tags c uuid tags w)))
             = filter is_update (events w) @
               [EsUpdate ''transfers'' ''transferfile'' (hit_id h)
                  (DictV [(''doc'', DictV [(''tags'', tags)])])]"
    and "hits results = [h] \<Longrightarrow>
           es_update c ''transfers'' ''transferfile'' (hit_id h)
             (DictV [(''doc'', DictV [(''tags'', tags)])]) = None \<Longrightarrow>
           fst (set_file_tags c uuid tags w) = Inr True"
proof -
  obtain ids w1 where q: "document_ids_from_field_query c ''transfers'' [''transferfile''] ''fileuuid'' uuid w
                            = (Inr ids, w1)"
    and ids: "ids = map hit_id (hits results)"
    and u: "filter is_update (events w1) = filter is_update (events w)"
    using document_ids_from_field_query_result [OF s, of "''transfers''" w]
    by (cases "document_ids_from_field_query c ''transfers'' [''transferfile''] ''fileuuid'' uuid w") auto
  show "hits results = [] \<Longrightarrow> fst (set_file_tags c uuid tags w) = Inl EmptySearchResultError"
    by (simp add: set_file_tags_def q ids)
  show "hits results = [] \<Longrightarrow>
           filter is_update (events (snd (set_file_tags c uuid tags w))) = filter is_update (events w)"
    by (simp add: set_file_tags_def q ids u)
  show "1 < length (hits results) \<Longrightarrow> fst (set_file_tags c uuid tags w) = Inl TooManyResultsError"
    by (auto simp add: set_file_tags_def q ids)
  show "hits results = [h] \<Longrightarrow>
           filter is_update (events (snd (set_file_tags c uuid tags w)))
             = filter is_update (events w) @
               [EsUpdate ''transfers'' ''transferfile'' (hit_id h)
                  (DictV [(''doc'', DictV [(''tags'', tags)])])]"
    by (simp add: set_file_tags_def q ids u client_update_def emit_def split: option.splits)
  show "hits results = [h] \<Longrightarrow>
           es_update c ''transfers'' ''transferfile'' (hit_id h)
             (DictV [(''doc'', DictV [(''tags'', tags)])]) = None \<Longrightarrow>
           fst (set_file_tags c uuid tags w) = Inr True"
    by (simp add: set_file_tags_def q ids client_update_def)
qed

lemma get_file_tags_by_count:
  assumes s: "es_search c \<lparr>sr_index = Some ''transfers'', sr_doc_type = Some ''transferfile'',
                         sr_field = ''fileuuid'', sr_value = uuid, sr_size = None,
                         sr_fields = Some ''tags''\<rparr> = Inr results"
  shows "total results = 0 \<Longrightarrow> fst (get_file_tags c uuid w) = Inl EmptySearchResultError"
    and "1 < total results \<Longrightarrow> fst (get_file_tags c uuid w) = Inl TooManyResultsError"
    and "total results = 1 \<Longrightarrow> hits results = [h] \<Longrightarrow> hit_fields h = None \<Longrightarrow>
           fst (get_file_tags c uuid w) = Inr (ListV [])"
    and "total results = 1 \<Longrightarrow> hits results = [h] \<Longrightarrow> hit_fields h = Some flds \<Longrightarrow>
           map_of flds ''tags'' = Some tags \<Longrightarrow> fst (get_file_tags c uuid w) = Inr tags"
  using s by (simp_all add: get_file_tags_def client_search_def)

text \<open>
  Claim C5: when the lookup of a status update finds no document, \<open>update_field\<close> logs the
  condition, returns normally and issues no update call; \<open>set_file_tags\<close> in the same
  situation raises \<^verbatim>\<open>EmptySearchResultError\<close> (and issues no update call either).
\<close>

theorem update_field_zero_matches:
  "(es_search c \<lparr>sr_index = None, sr_doc_type = Some (join_comma [doc_type]),
                 sr_field = ''uuid'', sr_value = escape_slashes uuid,
                 sr_size = Some MAX_QUERY_SIZE, sr_fields = None\<rparr> = Inr results \<and>
    hits results = [] \<longrightarrow>
      fst (update_field c uuid index doc_type field status w) = Inr () \<and>
      Log ERROR ''Unable to find document with UUID {} in index {}'' [StrV uuid, StrV index]
        \<in> set (events (snd (update_field c uuid index doc_type field status w))) \<and>
      filter is_update (events (snd (update_field c uuid index doc_type field status w)))
        = filter is_update (events w)) \<and>
   (es_search c \<lparr>sr_index = None, sr_doc_type = Some (join_comma [''transferfile'']),
                 sr_field = ''fileuuid'', sr_value = escape_slashes uuid,
                 sr_size = Some MAX_QUERY_SIZE, sr_fields = None\<rparr> = Inr results \<and>
    hits results = [] \<longrightarrow>
      fst (set_file_tags c uuid tags w) = Inl EmptySearchResultError \<and>
      filter is_update (events (snd (set_file_tags c uuid tags w)))
        = filter is_update (events w))"
  using update_field_not_single [of c doc_type uuid results index field status w]
        set_file_tags_by_count(1) [of c uuid results tags w]
        set_file_tags_by_count(2) [of c uuid results tags w]
  by simp

theorem update_field_zero_matches_witness:
  "fst (update_field (store_with_hits []) ''aip-1'' ''aips'' ''aip'' ''status'' (StrV ''UPLOADED'')
          initial_world) = Inr () \<and>
   filter is_update (events (snd (update_field (store_with_hits []) ''aip-1'' ''aips'' ''aip''
          ''status'' (StrV ''UPLOADED'') initial_world))) = [] \<and>
   fst (set_file_tags (store_with_hits []) ''aip-1'' (ListV []) initial_world)
     = Inl EmptySearchResultError"
  using update_field_zero_matches
          [where c = "store_with_hits []" and uuid = "''aip-1''" and index = "''aips''"
             and doc_type = "''aip''" and field = "''status''" and status = "StrV ''UPLOADED''"
             and w = initial_world and results = "\<lparr>total = 0, hits = []\<rparr>" and tags = "ListV []"]
  by (simp add: store_with_hits_def initial_world_def)

text \<open>
  Claim C3: the tag operations by the number of documents the search reports.
  \<open>get_file_tags\<close> counts \<^verbatim>\<open>results['hits']['total']\<close> of its own search;
  \<open>set_file_tags\<close> counts the identifiers \<open>document_ids_from_field_query\<close> returns. Zero
  raises \<^verbatim>\<open>EmptySearchResultError\<close>, more than one raises \<^verbatim>\<open>TooManyResultsError\<close>. With one
  match \<open>get_file_tags\<close> returns the \<^verbatim>\<open>tags\<close> of the hit's \<^verbatim>\<open>fields\<close>, or the empty list when the
  hit has no \<^verbatim>\<open>fields\<close>; \<open>set_file_tags\<close> issues exactly one update, of the matched document,
  with the given tags, and returns \<^verbatim>\<open>True\<close> when that call returns.
\<close>

theorem file_tags_by_match_count:
  "(es_search c \<lparr>sr_index = Some ''transfers'', sr_doc_type = Some ''transferfile'',
                 sr_field = ''fileuuid'', sr_value = uuid, sr_size = None,
                 sr_fields = Some ''tags''\<rparr> = Inr results \<longrightarrow>
      (total results = 0 \<longrightarrow> fst (get_file_tags c uuid w) = Inl EmptySearchResultError) \<and>
      (1 < total results \<longrightarrow> fst (get_file_tags c uuid w) = Inl TooManyResultsError) \<and>
      (total results = 1 \<and> hits results = [h] \<longrightarrow>
         (hit_fields h = None \<longrightarrow> fst (get_file_tags c uuid w) = Inr (ListV [])) \<and>
         (\<forall>flds ts. hit_fields h = Some flds \<and> map_of flds ''tags'' = Some ts \<longrightarrow>
            fst (get_file_tags c uuid w) = Inr ts))) \<and>
   (es_search c \<lparr>sr_index = None, sr_doc_type = Some (join_comma [''transferfile'']),
                 sr_field = ''fileuuid'', sr_value = escape_slashes uuid,
                 sr_size = Some MAX_QUERY_SIZE, sr_fields = None\<rparr> = Inr found \<longrightarrow>
      (hits found = [] \<longrightarrow> fst (set_file_tags c uuid tags w) = Inl EmptySearchResultError) \<and>
      (1 < length (hits found) \<longrightarrow> fst (set_file_tags c uuid tags w) = Inl TooManyResultsError) \<and>
      (hits found = [h'] \<longrightarrow>
         filter is_update (events (snd (set_file_tags c uuid tags w)))
           = filter is_update (events w) @
             [EsUpdate ''transfers'' ''transferfile'' (hit_id h')
                (DictV [(''doc'', DictV [(''tags'', tags)])])] \<and>
         (es_update c ''transfers'' ''transferfile'' (hit_id h')
            (DictV [(''doc'', DictV [(''tags'', tags)])]) = None \<longrightarrow>
          fst (set_file_tags c uuid tags w) = Inr True)))"
proof (intro conjI impI allI)
  assume s: "es_search c \<lparr>sr_index = Some ''transfers'', sr_doc_type = Some ''transferfile'',
                 sr_field = ''fileuuid'', sr_value = uuid, sr_size = None,
                 sr_fields = Some ''tags''\<rparr> = Inr results"
  note g = get_file_tags_by_count [OF s]
  show "total results = 0 \<Longrightarrow> fst (get_file_tags c uuid w) = Inl EmptySearchResultError"
    by (rule g(1))
  show "1 < total results \<Longrightarrow> fst (get_file_tags c uuid w) = Inl TooManyResultsError"
    by (rule g(2))
  show "total results = 1 \<and> hits results = [h] \<Longrightarrow> hit_fields h = None \<Longrightarrow>
          fst (get_file_tags c uuid w) = Inr (ListV [])"
    using g(3) by blast
  show "\<And>flds ts. total results = 1 \<and> hits results = [h] \<Longrightarrow>
          hit_fields h = Some flds \<and> map_of flds ''tags'' = Some ts \<Longrightarrow>
          fst (get_file_tags c uuid w) = Inr ts"
    using g(4) by blast
next
  assume s: "es_search c \<lparr>sr_index = None, sr_doc_type = Some (join_comma [''transferfile'']),
                 sr_field = ''fileuuid'', sr_value = escape_slashes uuid,
                 sr_size = Some MAX_QUERY_SIZE, sr_fields = None\<rparr> = Inr found"
  note t = set_file_tags_by_count [OF s]
  show "hits found = [] \<Longrightarrow> fst (set_file_tags c uuid tags w) = Inl EmptySearchResultError"
    by (rule t(1))
  show "1 < length (hits found) \<Longrightarrow> fst (set_file_tags c uuid tags w) = Inl TooManyResultsError"
    by (rule t(3))
  show "hits found = [h'] \<Longrightarrow>
         filter is_update (events (snd (set_file_tags c uuid tags w)))
           = filter is_update (events w) @
             [EsUpdate ''transfers'' ''transferfile'' (hit_id h')
                (DictV [(''doc'', DictV [(''tags'', tags)])])]"
    by (rule t(4))
  show "hits found = [h'] \<Longrightarrow>
         es_update c ''transfers'' ''transferfile'' (hit_id h')
            (DictV [(''doc'', DictV [(''tags'', tags)])]) = None \<Longrightarrow>
          fst (set_file_tags c uuid tags w) = Inr True"
    by (rule t(5))
qed

theorem file_tags_by_match_count_witness:
  "fst (get_file_tags (store_with_hits []) ''f-1'' initial_world) = Inl EmptySearchResultError \<and>
   fst (set_file_tags (store_with_hits []) ''f-1'' (ListV []) initial_world)
     = Inl EmptySearchResultError \<and>
   fst (get_file_tags (store_with_hits [\<lparr>hit_id = ''doc1'', hit_fields = None\<rparr>]) ''f-1''
          initial_world) = Inr (ListV []) \<and>
   fst (get_file_tags
          (store_with_hits [\<lparr>hit_id = ''doc1'', hit_fields = Some [(''tags'', ListV [StrV ''x''])]\<rparr>])
          ''f-1'' initial_world) = Inr (ListV [StrV ''x'']) \<and>
   fst (set_file_tags (store_with_hits [\<lparr>hit_id = ''doc1'', hit_fields = None\<rparr>]) ''f-1''
          (ListV []) initial_world) = Inr True \<and>
   filter is_update (events (snd (set_file_tags
          (store_with_hits [\<lparr>hit_id = ''doc1'', hit_fields = None\<rparr>]) ''f-1'' (ListV [])
          initial_world)))
     = [EsUpdate ''transfers'' ''transferfile'' ''doc1'' (DictV [(''doc'', DictV [(''tags'', ListV [])])])] \<and>
   fst (get_file_tags
          (store_with_hits [\<lparr>hit_id = ''doc1'', hit_fields = None\<rparr>, \<lparr>hit_id = ''doc2'', hit_fields = None\<rparr>])
          ''f-1'' initial_world) = Inl TooManyResultsError \<and>
   fst (set_file_tags
          (store_with_hits [\<lparr>hit_id = ''doc1'', hit_fields = None\<rparr>, \<lparr>hit_id = ''doc2'', hit_fields = None\<rparr>])
          ''f-1'' (ListV []) initial_world) = Inl TooManyResultsError"
  using file_tags_by_match_count
          [where c = "store_with_hits []" and uuid = "''f-1''" and w = initial_world
             and results = "\<lparr>total = 0, hits = []\<rparr>" and found = "\<lparr>total = 0, hits = []\<rparr>"
             and tags = "ListV []"]
        file_tags_by_match_count
          [where c = "store_with_hits [\<lparr>hit_id = ''doc1'', hit_fields = None\<rparr>]"
             and uuid = "''f-1''" and w = initial_world
             and results = "\<lparr>total = 1, hits = [\<lparr>hit_id = ''doc1'', hit_fields = None\<rparr>]\<rparr>"
             and found = "\<lparr>total = 1, hits = [\<lparr>hit_id = ''doc1'', hit_fields = None\<rparr>]\<rparr>"
             and h = "\<lparr>hit_id = ''doc1'', hit_fields = None\<rparr>"
             and h' = "\<lparr>hit_id = ''doc1'', hit_fields = None\<rparr>" and tags = "ListV []"]
        file_tags_by_match_count
          [where c = "store_with_hits [\<lparr>hit_id = ''doc1'', hit_fields = Some [(''tags'', ListV [StrV ''x''])]\<rparr>]"
             and uuid = "''f-1''" and w = initial_world
             and results = "\<lparr>total = 1, hits = [\<lparr>hit_id = ''doc1'', hit_fields = Some [(''tags'', ListV [StrV ''x''])]\<rparr>]\<rparr>"
             and h = "\<lparr>hit_id = ''doc1'', hit_fields = Some [(''tags'', ListV [StrV ''x''])]\<rparr>"]
        file_tags_by_match_count
          [where c = "store_with_hits [\<lparr>hit_id = ''doc1'', hit_fields = None\<rparr>, \<lparr>hit_id = ''doc2'', hit_fields = None\<rparr>]"
             and uuid = "''f-1''" and w = initial_world
             and results = "\<lparr>total = 2, hits = [\<lparr>hit_id = ''doc1'', hit_fields = None\<rparr>, \<lparr>hit_id = ''doc2'', hit_fields = None\<rparr>]\<rparr>"
             and found = "\<lparr>total = 2, hits = [\<lparr>hit_id = ''doc1'', hit_fields = None\<rparr>, \<lparr>hit_id = ''doc2'', hit_fields = None\<rparr>]\<rparr>"
             and tags = "ListV []"]
  by (simp add: store_with_hits_def initial_world_def)

subsection \<open>Indexing transfers and AIPs\<close>

lemma indexed_documents_append:
  "indexed_documents (xs @ ys) = indexed_documents xs @ indexed_documents ys"
  by (induction xs rule: indexed_documents.induct) simp_all

lemma emit_indexed:
  "indexed_documents evs = [] \<Longrightarrow>
   indexed_documents (events (emit evs w)) = indexed_documents (events w)"
  by (simp add: emit_def indexed_documents_append)

lemma time_sleep_indexed:
  "indexed_documents (events (snd (time_sleep seconds w))) = indexed_documents (events w)"
  by (simp add: time_sleep_def emit_indexed)

lemma time_sleep_cases:
  obtains e where "time_sleep seconds w = (Some e, w)"
  | w' where "time_sleep seconds w = (None, w')"
      and "indexed_documents (events w') = indexed_documents (events w)"
      and "index_calls w' = index_calls w"
  by (cases "seconds < 0"; cases "SLEEP_MAX < seconds")
     (auto simp: time_sleep_def emit_def indexed_documents_append)

lemma wait_loop_indexed:
  "indexed_documents (events (snd (wait_loop c wt n status w))) = indexed_documents (events w)"
proof (induction n arbitrary: status w)
  case 0
  then show ?case by simp
next
  case (Suc n)
  show ?case
  proof (cases "healthy status")
    case True
    then show ?thesis by simp
  next
    case False
    let ?w1 = "w\<lparr>events := events w @ [EsHealth], health_calls := Suc (health_calls w)\<rparr>"
    obtain status' w2 where h: "(case es_health c (health_calls w) of
                  HealthStatus s \<Rightarrow> (Some s, ?w1)
                | HealthRaises \<Rightarrow> (None, emit [StdPrint ''ERROR: failed health check.''] ?w1))
              = (status', w2)"
      by (metis surj_pair)
    have w2: "indexed_documents (events w2) = indexed_documents (events w)"
      using h by (cases "es_health c (health_calls w)")
                 (auto simp: emit_def indexed_documents_append)
    let ?w2' = "emit [StdPrint ''Cluster not in yellow or green state... waiting to retry.''] w2"
    have w2': "indexed_documents (events ?w2') = indexed_documents (events w)"
      using w2 by (simp add: emit_indexed)
    show ?thesis
    proof (cases "healthy status'")
      case True
      then have "wait_loop c wt (Suc n) status w = wait_loop c wt n status' w2"
        using False h by (simp add: Let_def)
      with Suc [of status' w2] w2 show ?thesis by simp
    next
      case unhealthy: False
      show ?thesis
      proof (cases rule: time_sleep_cases [of wt ?w2'])
        case (1 e)
        then have "wait_loop c wt (Suc n) status w = (Inl e, ?w2')"
          using False unhealthy h by (simp add: Let_def)
        with w2' show ?thesis by simp
      next
        case (2 w3)
        then have "wait_loop c wt (Suc n) status w = wait_loop c wt n status' w3"
          using False unhealthy h by (simp add: Let_def)
        with Suc [of status' w3] 2 w2' show ?thesis by simp
      qed
    qed
  qed
qed

lemma wait_loop_returns:
  "0 \<le> wt \<and> wt \<le> SLEEP_MAX \<Longrightarrow> fst (wait_loop c wt n status w) = Inr ()"
proof (induction n arbitrary: status w)
  case 0
  then show ?case by simp
next
  case (Suc n)
  then show ?case
    by (cases "es_health c (health_calls w)") (simp_all add: Let_def time_sleep_def)
qed

lemma try_loop_indexed:
  "\<exists>k. indexed_documents (events (snd (try_loop c data index wt n exc w)))
          = indexed_documents (events w) @ replicate k (index, data) \<and> (0 < n \<longrightarrow> 0 < k)"
proof (induction n arbitrary: exc w)
  case 0
  have "indexed_documents (events (snd (try_loop c data index wt 0 exc w)))
          = indexed_documents (events w) @ replicate 0 (index, data)"
    by (simp split: option.splits)
  then show ?case by blast
next
  case (Suc n)
  define w1 where "w1 = w\<lparr>events := events w @ [EsIndex index DOC_TYPE data],
                            index_calls := Suc (index_calls w)\<rparr>"
  have w1: "indexed_documents (events w1) = indexed_documents (events w) @ [(index, data)]"
    by (simp add: w1_def indexed_documents_append)
  show ?case
  proof (cases "es_index c (index_calls w)")
    case None
    then have "try_loop c data index wt (Suc n) exc w = (Inr (), w1)"
      by (simp add: client_index_def w1_def)
    with w1 have "indexed_documents (events (snd (try_loop c data index wt (Suc n) exc w)))
          = indexed_documents (events w) @ replicate 1 (index, data)" by simp
    then show ?thesis by (intro exI [of _ 1]) simp
  next
    case (Some e)
    let ?w1' = "emit [Printfn ''ERROR: error trying to index.'' [], PrintfnExc e] w1"
    have w1': "indexed_documents (events ?w1') = indexed_documents (events w) @ [(index, data)]"
      using w1 by (simp add: emit_indexed)
    show ?thesis
    proof (cases rule: time_sleep_cases [of wt ?w1'])
      case (1 e')
      then have "try_loop c data index wt (Suc n) exc w = (Inl e', ?w1')"
        using Some by (simp add: client_index_def w1_def)
      with w1' have "indexed_documents (events (snd (try_loop c data index wt (Suc n) exc w)))
          = indexed_documents (events w) @ replicate 1 (index, data)" by simp
      then show ?thesis by (intro exI [of _ 1]) simp
    next
      case (2 w2)
      then have step: "try_loop c data index wt (Suc n) exc w = try_loop c data index wt n (Some e) w2"
        using Some by (simp add: client_index_def w1_def)
      from Suc [of "Some e" w2] obtain k where
        "indexed_documents (events (snd (try_loop c data index wt n (Some e) w2)))
            = indexed_documents (events w2) @ replicate k (index, data)" by blast
      then have "indexed_documents (events (snd (try_loop c data index wt (Suc n) exc w)))
            = indexed_documents (events w) @ replicate (Suc k) (index, data)"
        unfolding step using 2(2) w1' by (simp add: replicate_append_same)
      then show ?thesis by (intro exI [of _ "Suc k"]) simp
    qed
  qed
qed

lemma wait_and_index_indexed:
  "\<exists>k. indexed_documents (events (snd (wait_and_index c data index w)))
          = indexed_documents (events w) @ replicate k (index, data) \<and> 0 < k"
proof -
  obtain u w1 where wt: "wait_for_cluster_yellow_status c 10 10 w = (u, w1)"
    by (cases "wait_for_cluster_yellow_status c 10 10 w")
  have "fst (wait_for_cluster_yellow_status c 10 10 w) = Inr ()"
    by (simp add: wait_for_cluster_yellow_status_def wait_loop_returns SLEEP_MAX_def)
  with wt have u: "u = Inr ()" by simp
  have w1: "indexed_documents (events w1) = indexed_documents (events w)"
    using wait_loop_indexed [of c 10 "nat 10" None w] wt
    by (simp add: wait_for_cluster_yellow_status_def)
  have run: "wait_and_index c data index w = try_loop c data index 10 (nat 10) None w1"
    by (simp add: wait_and_index_def wt u try_to_index_def)
  from try_loop_indexed [of c data index 10 "nat 10" None w1] w1
  show ?thesis unfolding run by simp
qed

lemma index_aip_checked_returns_0:
  "fst (index_aip_checked env c uuid path mets_path name aip_size aips_in_aic identifiers
          encrypted w) = Inr n \<Longrightarrow> n = 0"
  unfolding index_aip_checked_def Let_def
  by (simp split: sum.splits option.splits prod.splits if_splits)

lemma index_transfer_and_files_returns:
  "path_exists env path \<Longrightarrow>
   fst (index_transfer_and_files env c uuid path status w) = Inr n \<Longrightarrow> n = 0"
  unfolding index_transfer_and_files_def Let_def
  by (simp split: sum.splits option.splits prod.splits if_splits)

lemma path_exists_examples:
  "\<not> path_exists example_env [] \<and>
   path_exists example_env ''/'' \<and>
   path_exists example_env ''.'' \<and>
   path_exists example_env ''..'' \<and>
   path_exists example_env ''aips/./../aips//aip.7z'' \<and>
   path_exists example_env ''/aips/'' \<and>
   \<not> path_exists example_env ''/aips/aip.7z/'' \<and>
   \<not> path_exists example_env ''/aips/aip.7z/..'' \<and>
   \<not> path_exists example_env ''/aip.7z''"
  by code_simp

text \<open>
  Claim C7: when the AIP path or the METS path does not exist, \<open>index_aip_and_files\<close>
  returns 1 and does nothing but log the error message and print it to standard error; so
  does \<open>index_transfer_and_files\<close> when the transfer path does not exist. In both cases the
  store is not called. When the paths exist and the call returns, it returns 0.
\<close>

theorem missing_path_returns_1:
  "(\<not> path_exists env path \<or> \<not> path_exists env mets_path \<longrightarrow>
      index_aip_and_files env c uuid path mets_path name aip_size aips_in_aic identifiers
        encrypted w
      = (Inr 1,
         emit [Log ERROR (if \<not> path_exists env mets_path
                          then ''METS file does not exist at: '' @ mets_path
                          else ''AIP does not exist at: '' @ path) [],
               PrintfnErr (if \<not> path_exists env mets_path
                           then ''METS file does not exist at: '' @ mets_path
                           else ''AIP does not exist at: '' @ path)] w)) \<and>
   (\<not> path_exists env tpath \<longrightarrow>
      index_transfer_and_files env c tuuid tpath status w
      = (Inr 1,
         emit [Log ERROR (''Transfer does not exist at: '' @ tpath) [],
               PrintfnErr (''Transfer does not exist at: '' @ tpath)] w)) \<and>
   (path_exists env path \<and> path_exists env mets_path \<longrightarrow>
      (\<forall>n. fst (index_aip_and_files env c uuid path mets_path name aip_size aips_in_aic
                  identifiers encrypted w) = Inr n \<longrightarrow> n = 0)) \<and>
   (path_exists env tpath \<longrightarrow>
      (\<forall>n. fst (index_transfer_and_files env c tuuid tpath status w) = Inr n \<longrightarrow> n = 0))"
proof (intro conjI impI allI)
  assume "\<not> path_exists env path \<or> \<not> path_exists env mets_path"
  then show "index_aip_and_files env c uuid path mets_path name aip_size aips_in_aic identifiers
        encrypted w
      = (Inr 1,
         emit [Log ERROR (if \<not> path_exists env mets_path
                          then ''METS file does not exist at: '' @ mets_path
                          else ''AIP does not exist at: '' @ path) [],
               PrintfnErr (if \<not> path_exists env mets_path
                           then ''METS file does not exist at: '' @ mets_path
                           else ''AIP does not exist at: '' @ path)] w)"
    by (auto simp add: index_aip_and_files_def)
next
  assume "\<not> path_exists env tpath"
  then show "index_transfer_and_files env c tuuid tpath status w
      = (Inr 1,
         emit [Log ERROR (''Transfer does not exist at: '' @ tpath) [],
               PrintfnErr (''Transfer does not exist at: '' @ tpath)] w)"
    by (simp add: index_transfer_and_files_def Let_def)
next
  fix n
  assume "path_exists env path \<and> path_exists env mets_path"
    and "fst (index_aip_and_files env c uuid path mets_path name aip_size aips_in_aic
                  identifiers encrypted w) = Inr n"
  then show "n = 0"
    using index_aip_checked_returns_0 by (simp add: index_aip_and_files_def)
next
  fix n
  assume "path_exists env tpath"
    and "fst (index_transfer_and_files env c tuuid tpath status w) = Inr n"
  then show "n = 0" by (rule index_transfer_and_files_returns)
qed

theorem missing_path_returns_1_witness:
  "index_aip_and_files example_env (flaky_client 0) ''aip-1'' ''/aips/missing.7z''
     ''/aips/METS.xml'' ''aip'' None NoneV [] False initial_world
     = (Inr 1, emit [Log ERROR ''AIP does not exist at: /aips/missing.7z'' [],
                     PrintfnErr ''AIP does not exist at: /aips/missing.7z''] initial_world) \<and>
   index_aip_and_files example_env (flaky_client 0) ''aip-1'' ''/aips/aip.7z''
     ''/aips/missing.xml'' ''aip'' None NoneV [] False initial_world
     = (Inr 1, emit [Log ERROR ''METS file does not exist at: /aips/missing.xml'' [],
                     PrintfnErr ''METS file does not exist at: /aips/missing.xml''] initial_world) \<and>
   index_transfer_and_files two_transfers (flaky_client 0) ''uuid-3'' ''/t3/'' ''backlog''
     initial_world
     = (Inr 1, emit [Log ERROR ''Transfer does not exist at: /t3/'' [],
                     PrintfnErr ''Transfer does not exist at: /t3/''] initial_world) \<and>
   fst (index_aip_and_files example_env (flaky_client 0) ''aip-1'' ''/aips/aip.7z''
     ''/aips/METS.xml'' ''aip'' None NoneV [] False initial_world) = Inr 0 \<and>
   fst (index_transfer_and_files two_transfers (flaky_client 0) ''uuid-1'' ''/t1/'' ''backlog''
     initial_world) = Inr 0"
proof -
  have a: "\<not> path_exists example_env ''/aips/missing.7z''" by code_simp
  have b: "\<not> path_exists example_env ''/aips/missing.xml''" by code_simp
  have c: "path_exists example_env ''/aips/aip.7z''" by code_simp
  have d: "path_exists example_env ''/aips/METS.xml''" by code_simp
  have e: "\<not> path_exists two_transfers ''/t3/''" by code_simp
  have f: "path_exists two_transfers ''/t1/''" by code_simp
  have g: "fst (index_aip_and_files example_env (flaky_client 0) ''aip-1'' ''/aips/aip.7z''
     ''/aips/METS.xml'' ''aip'' None NoneV [] False initial_world) = Inr 0" by code_simp
  have h: "fst (index_transfer_and_files two_transfers (flaky_client 0) ''uuid-1'' ''/t1/''
     ''backlog'' initial_world) = Inr 0" by code_simp
  show ?thesis
    using a b c d e f g h
      missing_path_returns_1 [where env = example_env and path = "''/aips/missing.7z''"
        and mets_path = "''/aips/METS.xml''" and c = "flaky_client 0" and uuid = "''aip-1''"
        and name = "''aip''" and aip_size = None and aips_in_aic = NoneV and identifiers = "[]"
        and encrypted = False and w = initial_world and tpath = "''/aips/missing.7z''"]
      missing_path_returns_1 [where env = example_env and path = "''/aips/aip.7z''"
        and mets_path = "''/aips/missing.xml''" and c = "flaky_client 0" and uuid = "''aip-1''"
        and name = "''aip''" and aip_size = None and aips_in_aic = NoneV and identifiers = "[]"
        and encrypted = False and w = initial_world and tpath = "''/aips/missing.xml''"]
      missing_path_returns_1 [where env = two_transfers and tpath = "''/t3/''"
        and path = "''/t1/''" and mets_path = "''/t1/''"
        and c = "flaky_client 0" and tuuid = "''uuid-3''" and status = "''backlog''"
        and w = initial_world]
    by simp
qed

lemma walk_split:
  "filepaths = a @ b \<Longrightarrow> walk path entries filepaths = a @ walk path entries b"
proof (induction path entries filepaths arbitrary: a b rule: walk.induct)
  case (1 path filepaths)
  then show ?case by simp
next
  case (2 path fname n rest filepaths)
  let ?child = "path_join path fname"
  define f2 where "f2 = (case n of File st_size ctime \<Rightarrow> filepaths @ [?child]
                          | Dir st_size True entries \<Rightarrow> walk ?child entries (filepaths @ [?child])
                          | Dir st_size False entries \<Rightarrow> filepaths @ [?child])"
  define g2 where "g2 = (case n of File st_size ctime \<Rightarrow> b @ [?child]
                          | Dir st_size True entries \<Rightarrow> walk ?child entries (b @ [?child])
                          | Dir st_size False entries \<Rightarrow> b @ [?child])"
  have f2: "f2 = a @ g2"
  proof (cases "\<exists>st_size entries. n = Dir st_size True entries")
    case True
    then obtain st_size entries where n: "n = Dir st_size True entries" by blast
    have "walk ?child entries (filepaths @ [?child]) = a @ walk ?child entries (b @ [?child])"
      using "2.IH"(1) [OF refl refl n refl, of a "b @ [?child]"] "2.prems" by simp
    then show ?thesis by (simp add: f2_def g2_def n)
  next
    case False
    then have "f2 = filepaths @ [?child]" "g2 = b @ [?child]"
      by (auto simp: f2_def g2_def split: node.splits bool.splits)
    with "2.prems" show ?thesis by simp
  qed
  have "walk path rest f2 = a @ walk path rest g2"
    using "2.IH"(2) [OF refl refl f2_def, of a g2] f2 by simp
  then show ?case by (simp add: f2_def g2_def Let_def)
qed

lemma walk_appends: "walk path entries filepaths = filepaths @ walk path entries []"
  using walk_split [of filepaths filepaths "[]" path entries] by simp

lemma list_files_in_dir_default_second_call:
  assumes "list_files_in_dir env p1 [] = Inr xs" and "list_files_in_dir env p2 [] = Inr ys"
    and "default_filepaths w = []"
  shows "fst (list_files_in_dir_default env p2 (snd (list_files_in_dir_default env p1 w)))
           = Inr (xs @ ys)"
proof -
  from assms(1) obtain s1 es1 where l1: "lookup_path env p1 = Some (Dir s1 True es1)"
    and xs: "xs = walk p1 es1 []"
    by (auto simp: list_files_in_dir_def split: option.splits node.splits bool.splits)
  from assms(2) obtain s2 es2 where l2: "lookup_path env p2 = Some (Dir s2 True es2)"
    and ys: "ys = walk p2 es2 []"
    by (auto simp: list_files_in_dir_def split: option.splits node.splits bool.splits)
  show ?thesis
    using walk_appends [of p2 es2 xs]
    by (simp add: list_files_in_dir_default_def list_files_in_dir_def l1 l2 xs ys assms(3))
qed

text \<open>
  Claim C6 is about the code as it should be; the code shares one list between all calls.
  Two transfers \<^verbatim>\<open>/t1/\<close> (holding \<^verbatim>\<open>a.txt\<close>) and \<^verbatim>\<open>/t2/\<close> (holding \<^verbatim>\<open>b.txt\<close>) are indexed one
  after the other in a fresh process. Alone, \<^verbatim>\<open>_list_files_in_dir('/t2/')\<close> returns
  \<^verbatim>\<open>['/t2/b.txt']\<close> and the run indexes one file. After the run on \<^verbatim>\<open>/t1/\<close>, the same call
  returns \<^verbatim>\<open>['/t1/a.txt', '/t2/b.txt']\<close>, and the run for the second transfer indexes two
  files under its identifier: \<^verbatim>\<open>a.txt\<close> of the first transfer and its own \<^verbatim>\<open>b.txt\<close>.
\<close>

theorem list_files_in_dir_keeps_earlier_entries:
  "fst (list_files_in_dir_default two_transfers ''/t2/'' initial_world) = Inr [''/t2/b.txt''] \<and>
   fst (list_files_in_dir_default two_transfers ''/t2/''
          (snd (list_files_in_dir_default two_transfers ''/t1/'' initial_world)))
     = Inr [''/t1/a.txt'', ''/t2/b.txt''] \<and>
   fst (index_transfer_files two_transfers (flaky_client 0) ''uuid-2'' ''/t2/'' ''backlog''
          initial_world) = Inr 1 \<and>
   fst (index_transfer_files two_transfers (flaky_client 0) ''uuid-2'' ''/t2/'' ''backlog''
          (snd (index_transfer_files two_transfers (flaky_client 0) ''uuid-1'' ''/t1/''
                  ''backlog'' initial_world))) = Inr 2 \<and>
   map (doc_field ''filename'')
     (map snd (filter (\<lambda>(index, body). doc_field ''sipuuid'' body = Some (StrV ''uuid-2''))
        (indexed_documents (events (snd
           (index_transfer_files two_transfers (flaky_client 0) ''uuid-2'' ''/t2/'' ''backlog''
              (snd (index_transfer_files two_transfers (flaky_client 0) ''uuid-1'' ''/t1/''
                      ''backlog'' initial_world))))))))
     = [Some (StrV ''a.txt''), Some (StrV ''b.txt'')]"
  by code_simp



lemma index_aip_file_indexed:
  "\<exists>k doc. indexed_documents (events (snd (index_aip_file env c m uuid name is_part_of
                 aic_identifier dmdSec identifiers file w)))
              = indexed_documents (events w) @ replicate k (''aipfiles'', doc) \<and>
            (fst (index_aip_file env c m uuid name is_part_of aic_identifier dmdSec identifiers
                    file w) = Inr () \<longrightarrow> 0 < k) \<and>
            (\<forall>ident. ADMID file = None \<and> ID file = Some ident \<longrightarrow>
               doc_field ''FILEUUID'' doc = Some (opt_str (file_uuid_from_ID env ident)))"
proof -
  let ?r = "index_aip_file env c m uuid name is_part_of aic_identifier dmdSec identifiers file w"
  let ?d0 = "DictV [(''FILEUUID'',
               opt_str (case ID file of Some ident \<Rightarrow> file_uuid_from_ID env ident | None \<Rightarrow> None))]"
  have stop: ?thesis if "snd ?r = w \<and> fst ?r \<noteq> Inr ()"
  proof -
    from that have "indexed_documents (events (snd ?r))
                 = indexed_documents (events w) @ replicate 0 (''aipfiles'', ?d0)" by simp
    moreover have "\<forall>ident. ADMID file = None \<and> ID file = Some ident \<longrightarrow>
               doc_field ''FILEUUID'' ?d0 = Some (opt_str (file_uuid_from_ID env ident))"
      by simp
    ultimately show ?thesis using that
      by (intro exI [of _ 0] exI [of _ ?d0]) simp
  qed
  have go: ?thesis
    if r: "?r = wait_and_index c doc ''aipfiles'' w"
      and d: "\<forall>ident. ADMID file = None \<and> ID file = Some ident \<longrightarrow>
               doc_field ''FILEUUID'' doc = Some (opt_str (file_uuid_from_ID env ident))"
    for doc
  proof -
    from wait_and_index_indexed [of c doc "''aipfiles''" w] obtain k where
      "indexed_documents (events (snd (wait_and_index c doc ''aipfiles'' w)))
         = indexed_documents (events w) @ replicate k (''aipfiles'', doc)" and "0 < k" by blast
    with d show ?thesis unfolding r
      by (intro exI [of _ k] exI [of _ doc]) simp
  qed
  show ?thesis
  proof (cases "FLocat_href file")
    case None
    have "snd ?r = w \<and> fst ?r \<noteq> Inr ()"
      by (cases "ADMID file"; cases "ID file"; cases "amdSec_by_ID m (the (ADMID file))";
          cases "normalize (amdsec_dict (the (amdSec_by_ID m (the (ADMID file)))))")
         (simp_all add: index_aip_file_def None)
    then show ?thesis by (rule stop)
  next
    case (Some href)
    show ?thesis
    proof (cases href)
      case None
      have "snd ?r = w \<and> fst ?r \<noteq> Inr ()"
        by (cases "ADMID file"; cases "ID file"; cases "amdSec_by_ID m (the (ADMID file))";
            cases "normalize (amdsec_dict (the (amdSec_by_ID m (the (ADMID file)))))")
           (simp_all add: index_aip_file_def None Some)
      then show ?thesis by (rule stop)
    next
      case filePath: (Some filePath)
      show ?thesis
      proof (cases "ADMID file")
        case None
        show ?thesis
        proof (cases "ID file")
          case no_id: None
          have "snd ?r = w \<and> fst ?r \<noteq> Inr ()" by (simp add: index_aip_file_def None no_id)
          then show ?thesis by (rule stop)
        next
          case (Some ident)
          show ?thesis
          proof (rule go)
            show "?r = wait_and_index c
                    (file_index_data env uuid name is_part_of aic_identifier dmdSec identifiers
                       (transfer_metadata m) (file_uuid_from_ID env ident) filePath
                       (if splitext_ext filePath \<noteq> [] then lower (drop 1 (splitext_ext filePath))
                        else [])
                       [])
                    ''aipfiles'' w"
              by (simp add: index_aip_file_def None Some \<open>FLocat_href file = Some href\<close>
                    filePath Let_def)
            show "\<forall>ident'. ADMID file = None \<and> ID file = Some ident' \<longrightarrow>
               doc_field ''FILEUUID''
                 (file_index_data env uuid name is_part_of aic_identifier dmdSec identifiers
                       (transfer_metadata m) (file_uuid_from_ID env ident) filePath
                       (if splitext_ext filePath \<noteq> [] then lower (drop 1 (splitext_ext filePath))
                        else [])
                       [])
               = Some (opt_str (file_uuid_from_ID env ident'))"
              by (simp add: file_index_data_def Some)
          qed
        qed
      next
        case admid: (Some admID)
        show ?thesis
        proof (cases "amdSec_by_ID m admID")
          case None
          have "snd ?r = w \<and> fst ?r \<noteq> Inr ()" by (simp add: index_aip_file_def None admid)
          then show ?thesis by (rule stop)
        next
          case (Some amdSecInfo)
          show ?thesis
          proof (cases "normalize (amdsec_dict amdSecInfo)")
            case (Inl e)
            have "snd ?r = w \<and> fst ?r \<noteq> Inr ()" by (simp add: index_aip_file_def Inl Some admid)
            then show ?thesis by (rule stop)
          next
            case (Inr amdSec)
            show ?thesis
            proof (rule go)
              show "?r = wait_and_index c
                    (file_index_data env uuid name is_part_of aic_identifier dmdSec identifiers
                       (transfer_metadata m) (objectIdentifierValue amdSecInfo) filePath
                       (if splitext_ext filePath \<noteq> [] then lower (drop 1 (splitext_ext filePath))
                        else [])
                       amdSec)
                    ''aipfiles'' w"
                by (simp add: index_aip_file_def Inr Some admid
                      \<open>FLocat_href file = Some href\<close> filePath Let_def)
              show "\<forall>ident'. ADMID file = None \<and> ID file = Some ident' \<longrightarrow>
                 doc_field ''FILEUUID''
                   (file_index_data env uuid name is_part_of aic_identifier dmdSec identifiers
                       (transfer_metadata m) (objectIdentifierValue amdSecInfo) filePath
                       (if splitext_ext filePath \<noteq> [] then lower (drop 1 (splitext_ext filePath))
                        else [])
                       amdSec)
                 = Some (opt_str (file_uuid_from_ID env ident'))"
                by (simp add: admid)
            qed
          qed
        qed
      qed
    qed
  qed
qed



lemma index_aip_files_loop_documents:
  "\<exists>dss. length dss \<le> length files \<and>
          list_all2 (\<lambda>file ds.
              \<forall>(i, d) \<in> set ds. i = ''aipfiles'' \<and>
                 (\<forall>ident. ADMID file = None \<and> ID file = Some ident \<longrightarrow>
                    doc_field ''FILEUUID'' d = Some (opt_str (file_uuid_from_ID env ident))))
            (take (length dss) files) dss \<and>
          indexed_documents (events (snd (index_aip_files_loop env c m uuid name is_part_of
                 aic_identifier dmdSec identifiers files w)))
            = indexed_documents (events w) @ concat dss \<and>
          (fst (index_aip_files_loop env c m uuid name is_part_of aic_identifier dmdSec
                  identifiers files w) = Inr () \<longrightarrow>
             length dss = length files \<and> (\<forall>ds \<in> set dss. ds \<noteq> []))"
proof (induction files arbitrary: w)
  case Nil
  show ?case by (rule exI [of _ "[]"]) simp
next
  case (Cons f files)
  let ?r = "index_aip_file env c m uuid name is_part_of aic_identifier dmdSec identifiers f w"
  from index_aip_file_indexed [of env c m uuid name is_part_of aic_identifier dmdSec
            identifiers f w]
  obtain k doc where one: "indexed_documents (events (snd ?r))
            = indexed_documents (events w) @ replicate k (''aipfiles'', doc)"
    and k: "fst ?r = Inr () \<longrightarrow> 0 < k"
    and fu: "\<forall>ident. ADMID f = None \<and> ID f = Some ident \<longrightarrow>
               doc_field ''FILEUUID'' doc = Some (opt_str (file_uuid_from_ID env ident))"
    by blast
  have here: "\<forall>(i, d) \<in> set (replicate k (''aipfiles'', doc)). i = ''aipfiles'' \<and>
                 (\<forall>ident. ADMID f = None \<and> ID f = Some ident \<longrightarrow>
                    doc_field ''FILEUUID'' d = Some (opt_str (file_uuid_from_ID env ident)))"
    using fu by simp
  show ?case
  proof (cases "fst ?r")
    case (Inl e)
    then have stop: "index_aip_files_loop env c m uuid name is_part_of aic_identifier dmdSec
                 identifiers (f # files) w = (Inl e, snd ?r)"
      by (cases ?r) simp
    show ?thesis
      using here one unfolding stop
      by (intro exI [of _ "[replicate k (''aipfiles'', doc)]"]) simp
  next
    case (Inr u)
    then have step: "index_aip_files_loop env c m uuid name is_part_of aic_identifier dmdSec
                 identifiers (f # files) w
               = index_aip_files_loop env c m uuid name is_part_of aic_identifier dmdSec
                   identifiers files (snd ?r)"
      by (cases ?r) simp
    from Inr k have kpos: "replicate k (''aipfiles'', doc) \<noteq> []" by simp
    from Cons.IH [of "snd ?r"] obtain dss where
      len: "length dss \<le> length files"
      and rest: "list_all2 (\<lambda>file ds.
              \<forall>(i, d) \<in> set ds. i = ''aipfiles'' \<and>
                 (\<forall>ident. ADMID file = None \<and> ID file = Some ident \<longrightarrow>
                    doc_field ''FILEUUID'' d = Some (opt_str (file_uuid_from_ID env ident))))
            (take (length dss) files) dss"
      and docs: "indexed_documents (events (snd (index_aip_files_loop env c m uuid name
                 is_part_of aic_identifier dmdSec identifiers files (snd ?r))))
            = indexed_documents (events (snd ?r)) @ concat dss"
      and fin: "fst (index_aip_files_loop env c m uuid name is_part_of aic_identifier dmdSec
                  identifiers files (snd ?r)) = Inr () \<longrightarrow>
             length dss = length files \<and> (\<forall>ds \<in> set dss. ds \<noteq> [])"
      by blast
    show ?thesis
      using here kpos len rest docs fin one unfolding step
      by (intro exI [of _ "replicate k (''aipfiles'', doc) # dss"]) simp
  qed
qed

lemma index_aip_files_documents:
  assumes p: "parse_mets env mets_path = Inr m"
  shows "\<exists>dss. length dss \<le> length (original_files m @ metadata_files m) \<and>
          list_all2 (\<lambda>file ds.
              \<forall>(i, d) \<in> set ds. i = ''aipfiles'' \<and>
                 (\<forall>ident. ADMID file = None \<and> ID file = Some ident \<longrightarrow>
                    doc_field ''FILEUUID'' d = Some (opt_str (file_uuid_from_ID env ident))))
            (take (length dss) (original_files m @ metadata_files m)) dss \<and>
          indexed_documents (events (snd (index_aip_files env c uuid mets_path name
                 identifiers w)))
            = indexed_documents (events w) @ concat dss \<and>
          (\<forall>n. fst (index_aip_files env c uuid mets_path name identifiers w) = Inr n \<longrightarrow>
             n = int (length (original_files m @ metadata_files m)) \<and>
             length dss = length (original_files m @ metadata_files m) \<and>
             (\<forall>ds \<in> set dss. ds \<noteq> []))"
proof -
  let ?w1 = "emit [StdPrint ''Removed FITS output from METS.''] w"
  have w1: "indexed_documents (events ?w1) = indexed_documents (events w)"
    by (simp add: emit_indexed)
  obtain aic_identifier is_part_of where ids:
    "file_collection_identifiers m = (aic_identifier, is_part_of)"
    by (cases "file_collection_identifiers m")
  show ?thesis
  proof (cases "normalize (if dmdSec_xmlData m = [] then [] else last (dmdSec_xmlData m))")
    case (Inl e)
    then have "index_aip_files env c uuid mets_path name identifiers w = (Inl e, ?w1)"
      using p ids by (simp add: index_aip_files_def Let_def)
    with w1 show ?thesis by (intro exI [of _ "[]"]) simp
  next
    case dmd: (Inr dmdSec)
    let ?l = "index_aip_files_loop env c m uuid name is_part_of aic_identifier dmdSec identifiers
                (original_files m @ metadata_files m) ?w1"
    from index_aip_files_loop_documents [of "original_files m @ metadata_files m" env c m uuid
           name is_part_of aic_identifier dmdSec identifiers ?w1]
    obtain dss where
      len: "length dss \<le> length (original_files m @ metadata_files m)"
      and each: "list_all2 (\<lambda>file ds.
              \<forall>(i, d) \<in> set ds. i = ''aipfiles'' \<and>
                 (\<forall>ident. ADMID file = None \<and> ID file = Some ident \<longrightarrow>
                    doc_field ''FILEUUID'' d = Some (opt_str (file_uuid_from_ID env ident))))
            (take (length dss) (original_files m @ metadata_files m)) dss"
      and docs: "indexed_documents (events (snd ?l)) = indexed_documents (events ?w1) @ concat dss"
      and fin: "fst ?l = Inr () \<longrightarrow>
             length dss = length (original_files m @ metadata_files m) \<and>
             (\<forall>ds \<in> set dss. ds \<noteq> [])"
      by blast
    have run: "index_aip_files env c uuid mets_path name identifiers w
                 = (case fst ?l of
                      Inl e \<Rightarrow> Inl e
                    | Inr u \<Rightarrow> Inr (int (length (original_files m @ metadata_files m))),
                    snd ?l)"
      using p ids dmd by (cases ?l; cases "fst ?l") (simp_all add: index_aip_files_def Let_def)
    have ret: "\<forall>n. fst (index_aip_files env c uuid mets_path name identifiers w) = Inr n \<longrightarrow>
             n = int (length (original_files m @ metadata_files m)) \<and>
             length dss = length (original_files m @ metadata_files m) \<and>
             (\<forall>ds \<in> set dss. ds \<noteq> [])"
      using fin unfolding run by (cases "fst ?l") auto
    have sent: "indexed_documents (events (snd (index_aip_files env c uuid mets_path name
                 identifiers w)))
            = indexed_documents (events w) @ concat dss"
      unfolding run using docs w1 by simp
    show ?thesis
      by (rule exI [of _ dss]) (intro conjI len each sent ret)
  qed
qed






subsection \<open>The identifier of an AIP file\<close>

lemma hyphen_not_word: "\<not> is_word_char env CHR ''-''"
  by (simp add: is_word_char_def)

lemma take_word_sound:
  "take_word env n s = Some (m, r) \<Longrightarrow> s = m @ r \<and> word_group env n m"
proof (induction env n s arbitrary: m r rule: take_word.induct)
  case (1 env s)
  then show ?case by (simp add: word_group_def)
next
  case (2 env n)
  then show ?case by simp
next
  case (3 env n ch s)
  from "3.prems" have w: "is_word_char env ch" by (simp split: if_splits)
  with "3.prems" obtain m' where t: "take_word env n s = Some (m', r)" and m: "m = ch # m'"
    by (auto split: option.splits)
  from "3.IH" [OF w t] w m show ?case by (simp add: word_group_def)
qed

lemma take_word_complete:
  "word_group env n g \<Longrightarrow> take_word env n (g @ r) = Some (g, r)"
proof (induction g arbitrary: n)
  case Nil
  then show ?case by (simp add: word_group_def)
next
  case (Cons ch g)
  then obtain n' where n: "n = Suc n'" by (cases n) (auto simp: word_group_def)
  with Cons.prems have "word_group env n' g" and "is_word_char env ch"
    by (simp_all add: word_group_def)
  with Cons.IH [of n'] n show ?case by simp
qed

lemma hyphen_word_sound:
  assumes "hyphen_word env n s = Some (m, r)"
  shows "s = m @ r \<and> (\<exists>h g. m = h @ g \<and> optional_hyphen h \<and> word_group env n g)"
proof (cases "s \<noteq> [] \<and> hd s = CHR ''-''")
  case True
  then obtain s' where s: "s = CHR ''-'' # s'" by (cases s) auto
  with assms obtain m' where t: "take_word env n s' = Some (m', r)" and m: "m = CHR ''-'' # m'"
    by (auto simp: hyphen_word_def split: option.splits)
  from take_word_sound [OF t] have "s' = m' @ r" and g: "word_group env n m'" by simp_all
  with s m have "s = m @ r" by simp
  moreover have "m = ''-'' @ m'" using m by simp
  moreover have "optional_hyphen ''-''" by (simp add: optional_hyphen_def)
  ultimately show ?thesis using g by blast
next
  case False
  with assms have t: "take_word env n s = Some (m, r)"
    by (cases s) (auto simp: hyphen_word_def split: if_splits)
  from take_word_sound [OF t] have "s = m @ r" and g: "word_group env n m" by simp_all
  moreover have "m = [] @ m" by simp
  moreover have "optional_hyphen []" by (simp add: optional_hyphen_def)
  ultimately show ?thesis by blast
qed

lemma hyphen_word_complete:
  assumes h: "optional_hyphen h" and g: "word_group env n g" and n: "0 < n"
  shows "hyphen_word env n (h @ g @ r) = Some (h @ g, r)"
proof (cases "h = []")
  case True
  from g n obtain ch g' where gc: "g = ch # g'" by (cases g) (auto simp: word_group_def)
  with g have "is_word_char env ch" by (simp add: word_group_def)
  with hyphen_not_word [of env] have "ch \<noteq> CHR ''-''" by auto
  with take_word_complete [OF g, of r] gc True show ?thesis
    by (simp add: hyphen_word_def)
next
  case False
  with h have "h = ''-''" by (simp add: optional_hyphen_def)
  with take_word_complete [OF g, of r] show ?thesis by (simp add: hyphen_word_def)
qed

lemma match_uuix_sound:
  assumes mt: "match_uuix env s = Some (m, r)"
  shows "s = m @ r \<and> uuid_shaped env m"
proof -
  from mt obtain m1 r1 where a: "take_word env 8 s = Some (m1, r1)"
    by (auto simp: match_uuix_def split: option.splits)
  from mt a obtain m2 r2 where b: "hyphen_word env 4 r1 = Some (m2, r2)"
    by (auto simp: match_uuix_def split: option.splits)
  from mt a b obtain m3 r3 where c: "hyphen_word env 4 r2 = Some (m3, r3)"
    by (auto simp: match_uuix_def split: option.splits)
  from mt a b c obtain m4 r4 where d: "hyphen_word env 4 r3 = Some (m4, r4)"
    by (auto simp: match_uuix_def split: option.splits)
  from mt a b c d obtain m5 where e: "hyphen_word env 12 r4 = Some (m5, r)"
    and m: "m = m1 @ m2 @ m3 @ m4 @ m5"
    by (auto simp: match_uuix_def split: option.splits)
  from take_word_sound [OF a] have s1: "s = m1 @ r1" and g1: "word_group env 8 m1" by simp_all
  from hyphen_word_sound [OF b] obtain h2 g2 where s2: "r1 = m2 @ r2" and m2: "m2 = h2 @ g2"
    and h2: "optional_hyphen h2" and g2: "word_group env 4 g2" by blast
  from hyphen_word_sound [OF c] obtain h3 g3 where s3: "r2 = m3 @ r3" and m3: "m3 = h3 @ g3"
    and h3: "optional_hyphen h3" and g3: "word_group env 4 g3" by blast
  from hyphen_word_sound [OF d] obtain h4 g4 where s4: "r3 = m4 @ r4" and m4: "m4 = h4 @ g4"
    and h4: "optional_hyphen h4" and g4: "word_group env 4 g4" by blast
  from hyphen_word_sound [OF e] obtain h5 g5 where s5: "r4 = m5 @ r" and m5: "m5 = h5 @ g5"
    and h5: "optional_hyphen h5" and g5: "word_group env 12 g5" by blast
  have "s = m @ r" unfolding m s1 s2 s3 s4 s5 by simp
  moreover have "m = m1 @ (h2 @ g2) @ (h3 @ g3) @ (h4 @ g4) @ (h5 @ g5)"
    unfolding m m2 m3 m4 m5 ..
  then have "uuid_shaped env m"
    unfolding uuid_shaped_def using g1 h2 g2 h3 g3 h4 g4 h5 g5 by blast
  ultimately show ?thesis ..
qed

lemma match_uuix_complete:
  assumes u: "uuid_shaped env u"
  shows "match_uuix env (u @ b) = Some (u, b)"
proof -
  from u obtain g1 h2 g2 h3 g3 h4 g4 h5 g5 where
    eq: "u = g1 @ (h2 @ g2) @ (h3 @ g3) @ (h4 @ g4) @ (h5 @ g5)"
    and g1: "word_group env 8 g1"
    and h2: "optional_hyphen h2" and g2: "word_group env 4 g2"
    and h3: "optional_hyphen h3" and g3: "word_group env 4 g3"
    and h4: "optional_hyphen h4" and g4: "word_group env 4 g4"
    and h5: "optional_hyphen h5" and g5: "word_group env 12 g5"
    unfolding uuid_shaped_def by blast
  let ?r4 = "h5 @ g5 @ b"
  let ?r3 = "h4 @ g4 @ ?r4"
  let ?r2 = "h3 @ g3 @ ?r3"
  let ?r1 = "h2 @ g2 @ ?r2"
  have s: "u @ b = g1 @ ?r1" unfolding eq by simp
  have a: "take_word env 8 (g1 @ ?r1) = Some (g1, ?r1)" by (rule take_word_complete [OF g1])
  have b2: "hyphen_word env 4 ?r1 = Some (h2 @ g2, ?r2)"
    by (rule hyphen_word_complete [OF h2 g2]) simp
  have b3: "hyphen_word env 4 ?r2 = Some (h3 @ g3, ?r3)"
    by (rule hyphen_word_complete [OF h3 g3]) simp
  have b4: "hyphen_word env 4 ?r3 = Some (h4 @ g4, ?r4)"
    by (rule hyphen_word_complete [OF h4 g4]) simp
  have b5: "hyphen_word env 12 ?r4 = Some (h5 @ g5, b)"
    by (rule hyphen_word_complete [OF h5 g5]) simp
  show ?thesis
    unfolding s match_uuix_def
    by (simp only: a b2 b3 b4 b5 option.case prod.case eq)
qed

lemma uuid_shaped_not_empty: "uuid_shaped env u \<Longrightarrow> u \<noteq> []"
  by (auto simp: uuid_shaped_def word_group_def)

lemma findall_uuix_sound:
  "u \<in> set (findall_uuix env s) \<Longrightarrow> uuid_shaped env u \<and> (\<exists>a b. s = a @ u @ b)"
proof (induction env s rule: findall_uuix.induct)
  case (1 env s)
  show ?case
  proof (cases "s = []")
    case True
    with "1.prems" show ?thesis by (simp add: findall_uuix.simps)
  next
    case False
    show ?thesis
    proof (cases "match_uuix env s")
      case None
      with False "1.prems" have "u \<in> set (findall_uuix env (tl s))"
        by (subst (asm) findall_uuix.simps) simp
      from "1.IH"(1) [OF False None this] obtain a b where
        sh: "uuid_shaped env u" and t: "tl s = a @ u @ b" by blast
      from False t have "s = (hd s # a) @ u @ b" by (cases s) simp_all
      with sh show ?thesis by blast
    next
      case (Some mr)
      obtain m r where mr: "mr = (m, r)" by (cases mr)
      from match_uuix_sound [OF Some [unfolded mr]] have s: "s = m @ r"
        and m: "uuid_shaped env m" by simp_all
      from False Some mr "1.prems" have "u = m \<or> u \<in> set (findall_uuix env r)"
        by (subst (asm) findall_uuix.simps) auto
      then show ?thesis
      proof
        assume "u = m"
        with s have "s = [] @ u @ r" by simp
        with m \<open>u = m\<close> show ?thesis by blast
      next
        assume "u \<in> set (findall_uuix env r)"
        from "1.IH"(2) [OF False Some mr [symmetric] this] obtain a b where
          sh: "uuid_shaped env u" and t: "r = a @ u @ b" by blast
        from s t have "s = (m @ a) @ u @ b" by simp
        with sh show ?thesis by blast
      qed
    qed
  qed
qed

lemma findall_uuix_complete:
  "uuid_shaped env u \<Longrightarrow> findall_uuix env (a @ u @ b) \<noteq> []"
proof (induction a)
  case Nil
  from match_uuix_complete [OF Nil, of b] uuid_shaped_not_empty [OF Nil]
  show ?case by (subst findall_uuix.simps) simp
next
  case (Cons x a)
  show ?case
  proof (cases "match_uuix env ((x # a) @ u @ b)")
    case None
    with Cons.IH [OF Cons.prems] show ?thesis by (subst findall_uuix.simps) simp
  next
    case (Some mr)
    then show ?thesis by (subst findall_uuix.simps) (simp split: prod.splits)
  qed
qed

text \<open>
  Claim C9: the identifier of an AIP file without \<^verbatim>\<open>ADMID\<close>. The strings found in the
  \<^verbatim>\<open>ID\<close> of the entry are UUID-shaped substrings of it, and one is found whenever the \<^verbatim>\<open>ID\<close>
  has a UUID-shaped substring. When the strings found are all the same string \<open>u\<close> the
  identifier is \<open>u\<close>; when two different ones are found, or none, it is \<^verbatim>\<open>None\<close>. In every
  run of \<^verbatim>\<open>_index_aip_files\<close> on a manifest, the documents sent to the store are, in the order
  of the file entries of the manifest, the documents of its first entries (\<open>dss\<close> holds the
  documents of each); all go to the index \<^verbatim>\<open>aipfiles\<close>, and the \<^verbatim>\<open>FILEUUID\<close> of the documents of
  an entry without \<^verbatim>\<open>ADMID\<close> is that identifier. When the run returns, it returns the number
  of entries, and every entry has at least one document.
\<close>

theorem aip_file_uuid_from_ID:
  "(\<forall>u \<in> set (findall_uuix env ident). uuid_shaped env u \<and> (\<exists>a b. ident = a @ u @ b)) \<and>
   ((\<exists>a u b. ident = a @ u @ b \<and> uuid_shaped env u) \<longrightarrow> findall_uuix env ident \<noteq> []) \<and>
   (set (findall_uuix env ident) = {u} \<longrightarrow> file_uuid_from_ID env ident = Some u) \<and>
   (card (set (findall_uuix env ident)) \<noteq> 1 \<longrightarrow> file_uuid_from_ID env ident = None) \<and>
   (parse_mets env mets_path = Inr m \<longrightarrow>
      (\<exists>dss. length dss \<le> length (original_files m @ metadata_files m) \<and>
          list_all2 (\<lambda>file ds.
              \<forall>(i, d) \<in> set ds. i = ''aipfiles'' \<and>
                 (\<forall>ident. ADMID file = None \<and> ID file = Some ident \<longrightarrow>
                    doc_field ''FILEUUID'' d = Some (opt_str (file_uuid_from_ID env ident))))
            (take (length dss) (original_files m @ metadata_files m)) dss \<and>
          indexed_documents (events (snd (index_aip_files env c uuid mets_path name
                 identifiers w)))
            = indexed_documents (events w) @ concat dss \<and>
          (\<forall>n. fst (index_aip_files env c uuid mets_path name identifiers w) = Inr n \<longrightarrow>
             n = int (length (original_files m @ metadata_files m)) \<and>
             length dss = length (original_files m @ metadata_files m) \<and>
             (\<forall>ds \<in> set dss. ds \<noteq> []))))"
proof -
  have p1: "\<forall>u \<in> set (findall_uuix env ident).
              uuid_shaped env u \<and> (\<exists>a b. ident = a @ u @ b)"
  proof
    fix v
    assume "v \<in> set (findall_uuix env ident)"
    then show "uuid_shaped env v \<and> (\<exists>a b. ident = a @ v @ b)" by (rule findall_uuix_sound)
  qed
  have p2: "(\<exists>a u b. ident = a @ u @ b \<and> uuid_shaped env u) \<longrightarrow> findall_uuix env ident \<noteq> []"
  proof
    assume "\<exists>a u b. ident = a @ u @ b \<and> uuid_shaped env u"
    then obtain a v b where "ident = a @ v @ b" and "uuid_shaped env v" by blast
    then show "findall_uuix env ident \<noteq> []" using findall_uuix_complete by simp
  qed
  have p3: "set (findall_uuix env ident) = {u} \<longrightarrow> file_uuid_from_ID env ident = Some u"
  proof
    assume s: "set (findall_uuix env ident) = {u}"
    have ne: "findall_uuix env ident \<noteq> []"
    proof
      assume "findall_uuix env ident = []"
      then have "set (findall_uuix env ident) = {}" by simp
      with s show False by simp
    qed
    have "hd (findall_uuix env ident) \<in> set (findall_uuix env ident)" by (rule hd_in_set [OF ne])
    then have h: "hd (findall_uuix env ident) = u" unfolding s by simp
    have c: "card (set (findall_uuix env ident)) = 1" unfolding s by simp
    show "file_uuid_from_ID env ident = Some u"
      unfolding file_uuid_from_ID_def Let_def c h by simp
  qed
  have p4: "card (set (findall_uuix env ident)) \<noteq> 1 \<longrightarrow> file_uuid_from_ID env ident = None"
    by (simp add: file_uuid_from_ID_def)
  have p5: "parse_mets env mets_path = Inr m \<longrightarrow>
      (\<exists>dss. length dss \<le> length (original_files m @ metadata_files m) \<and>
          list_all2 (\<lambda>file ds.
              \<forall>(i, d) \<in> set ds. i = ''aipfiles'' \<and>
                 (\<forall>ident. ADMID file = None \<and> ID file = Some ident \<longrightarrow>
                    doc_field ''FILEUUID'' d = Some (opt_str (file_uuid_from_ID env ident))))
            (take (length dss) (original_files m @ metadata_files m)) dss \<and>
          indexed_documents (events (snd (index_aip_files env c uuid mets_path name
                 identifiers w)))
            = indexed_documents (events w) @ concat dss \<and>
          (\<forall>n. fst (index_aip_files env c uuid mets_path name identifiers w) = Inr n \<longrightarrow>
             n = int (length (original_files m @ metadata_files m)) \<and>
             length dss = length (original_files m @ metadata_files m) \<and>
             (\<forall>ds \<in> set dss. ds \<noteq> [])))"
    by (rule impI) (rule index_aip_files_documents)
  show ?thesis by (rule conjI [OF p1 conjI [OF p2 conjI [OF p3 conjI [OF p4 p5]]]])
qed

theorem aip_file_uuid_from_ID_witness:
  "uuid_shaped example_env ''3b0a0401-0b6a-4a64-b1e8-2c1d0e5f9a11'' \<and>
   findall_uuix example_env ''id_3b0a0401-0b6a-4a64-b1e8-2c1d0e5f9a11.xml'' \<noteq> [] \<and>
   file_uuid_from_ID example_env
     ''file-3b0a0401-0b6a-4a64-b1e8-2c1d0e5f9a11-3b0a0401-0b6a-4a64-b1e8-2c1d0e5f9a11''
     = Some ''3b0a0401-0b6a-4a64-b1e8-2c1d0e5f9a11'' \<and>
   file_uuid_from_ID example_env
     ''file-3b0a0401-0b6a-4a64-b1e8-2c1d0e5f9a11-7c9e6679-7425-40de-944b-e07fc1f90ae7''
     = None \<and>
   file_uuid_from_ID example_env ''METS.xml'' = None \<and>
   index_aip_files example_env (flaky_client 0) ''aip-1'' ''/aips/METS.xml'' ''aip'' []
       initial_world
     \<noteq> (Inr 2, initial_world) \<and>
   fst (index_aip_files example_env (flaky_client 0) ''aip-1'' ''/aips/METS.xml'' ''aip'' []
          initial_world) = Inr 2 \<and>
   map (doc_field ''FILEUUID'') (map snd (indexed_documents (events (snd
     (index_aip_files example_env (flaky_client 0) ''aip-1'' ''/aips/METS.xml'' ''aip'' []
        initial_world)))))
     = [Some (StrV ''3b0a0401-0b6a-4a64-b1e8-2c1d0e5f9a11''), Some NoneV]"
proof -
  let ?same = "''file-3b0a0401-0b6a-4a64-b1e8-2c1d0e5f9a11-3b0a0401-0b6a-4a64-b1e8-2c1d0e5f9a11''"
  let ?two = "''file-3b0a0401-0b6a-4a64-b1e8-2c1d0e5f9a11-7c9e6679-7425-40de-944b-e07fc1f90ae7''"
  let ?run = "index_aip_files example_env (flaky_client 0) ''aip-1'' ''/aips/METS.xml'' ''aip'' []
                initial_world"
  have a: "findall_uuix example_env ?same
           = [''3b0a0401-0b6a-4a64-b1e8-2c1d0e5f9a11'', ''3b0a0401-0b6a-4a64-b1e8-2c1d0e5f9a11'']"
    by code_simp
  have b: "findall_uuix example_env ?two
           = [''3b0a0401-0b6a-4a64-b1e8-2c1d0e5f9a11'', ''7c9e6679-7425-40de-944b-e07fc1f90ae7'']"
    by code_simp
  have c: "findall_uuix example_env ''METS.xml'' = []" by code_simp
  have p: "parse_mets example_env ''/aips/METS.xml'' = Inr example_mets"
    by (simp add: example_env_def)
  have r: "fst ?run = Inr 2" by code_simp
  have d: "map (doc_field ''FILEUUID'') (map snd (indexed_documents (events (snd ?run))))
     = [Some (StrV ''3b0a0401-0b6a-4a64-b1e8-2c1d0e5f9a11''), Some NoneV]"
    by code_simp
  have files: "length (original_files example_mets @ metadata_files example_mets) = 2"
    by (simp add: example_mets_def)
  have s0: "''3b0a0401-0b6a-4a64-b1e8-2c1d0e5f9a11'' \<in> set (findall_uuix example_env ?same)"
    unfolding a by simp
  have s1: "set (findall_uuix example_env ?same) = {''3b0a0401-0b6a-4a64-b1e8-2c1d0e5f9a11''}"
    unfolding a by simp
  have s2: "card (set (findall_uuix example_env ?two)) \<noteq> 1"
    unfolding b by simp
  have s3: "card (set (findall_uuix example_env ''METS.xml'')) \<noteq> 1"
    unfolding c by simp
  have r0: "uuid_shaped example_env ''3b0a0401-0b6a-4a64-b1e8-2c1d0e5f9a11''"
    by (rule bspec [OF aip_file_uuid_from_ID [THEN conjunct1] s0, THEN conjunct1])
  have "''id_3b0a0401-0b6a-4a64-b1e8-2c1d0e5f9a11.xml''
          = ''id_'' @ ''3b0a0401-0b6a-4a64-b1e8-2c1d0e5f9a11'' @ ''.xml''" by simp
  with r0 have s4: "\<exists>a u b. ''id_3b0a0401-0b6a-4a64-b1e8-2c1d0e5f9a11.xml'' = a @ u @ b \<and>
                      uuid_shaped example_env u" by blast
  have r00: "findall_uuix example_env ''id_3b0a0401-0b6a-4a64-b1e8-2c1d0e5f9a11.xml'' \<noteq> []"
    by (rule mp [OF aip_file_uuid_from_ID [THEN conjunct2, THEN conjunct1] s4])
  have r1: "file_uuid_from_ID example_env ?same = Some ''3b0a0401-0b6a-4a64-b1e8-2c1d0e5f9a11''"
    by (rule mp [OF aip_file_uuid_from_ID [THEN conjunct2, THEN conjunct2, THEN conjunct1] s1])
  have r2: "file_uuid_from_ID example_env ?two = None"
    by (rule mp [OF aip_file_uuid_from_ID
          [THEN conjunct2, THEN conjunct2, THEN conjunct2, THEN conjunct1] s2])
  have r3: "file_uuid_from_ID example_env ''METS.xml'' = None"
    by (rule mp [OF aip_file_uuid_from_ID
          [THEN conjunct2, THEN conjunct2, THEN conjunct2, THEN conjunct1] s3])
  from mp [OF aip_file_uuid_from_ID
          [THEN conjunct2, THEN conjunct2, THEN conjunct2, THEN conjunct2] p,
          of "flaky_client 0" "''aip-1''" "''aip''" "[]" initial_world]
  obtain dss where
    e: "indexed_documents (events (snd ?run))
              = indexed_documents (events initial_world) @ concat dss"
    and fin: "\<forall>n. fst ?run = Inr n \<longrightarrow>
             n = int (length (original_files example_mets @ metadata_files example_mets)) \<and>
             length dss = length (original_files example_mets @ metadata_files example_mets) \<and>
             (\<forall>ds \<in> set dss. ds \<noteq> [])"
    by blast
  from fin r files have "length dss = 2" and ne: "\<forall>ds \<in> set dss. ds \<noteq> []" by auto
  then obtain ds dss' where "dss = ds # dss'" by (cases dss) auto
  with ne e have "indexed_documents (events (snd ?run)) \<noteq> []" by simp
  then have r4: "?run \<noteq> (Inr 2, initial_world)" by (auto simp: initial_world_def)
  show ?thesis by (intro conjI r0 r00 r1 r2 r3 r4 r d)
qed

end
